theory Spec2Isabelle
  imports Complex_Main "HOL-Library.Sublist"
begin

section \<open>Data model\<close>

text \<open>
  The scripts read sessions and messages as dictionaries decoded from JSON documents and
  reach into them with \<^verbatim>\<open>d.get(key, default)\<close>. A dictionary is modelled as a record
  whose fields are options: \<open>None\<close> is a key that is missing, \<open>Some v\<close> a key that is
  present with a value of the type the scripts expect there (a string, a list of
  strings, a nested dictionary). Python's \<^verbatim>\<open>str\<close> is modelled as \<open>string\<close>, one
  \<open>char\<close> per code point, which covers the code points 0 to 255; the character classes
  below (digits, whitespace, word characters, letter case) are Python's on these code
  points.
\<close>

record participant =
  identifier_field :: "string option"

record experiment_rec =
  exp_id :: "string option"

record session =
  session_id :: "string option"
  participant_field :: "participant option"
  experiment_field :: "experiment_rec option"
  tags_field :: "string list option"

record message =
  role :: "string option"
  content :: "string option"
  msg_tags_field :: "string list option"

text \<open>\<^verbatim>\<open>session.get('participant', {}).get('identifier', '')\<close>\<close>

definition participant_id :: "session \<Rightarrow> string" where
  "participant_id s =
     (case participant_field s of
        None \<Rightarrow> ''''
      | Some p \<Rightarrow> (case identifier_field p of None \<Rightarrow> '''' | Some i \<Rightarrow> i))"

text \<open>\<^verbatim>\<open>session.get('experiment', {}).get('id', '')\<close>\<close>

definition experiment_id :: "session \<Rightarrow> string" where
  "experiment_id s =
     (case experiment_field s of
        None \<Rightarrow> ''''
      | Some e \<Rightarrow> (case exp_id e of None \<Rightarrow> '''' | Some i \<Rightarrow> i))"

text \<open>\<^verbatim>\<open>session.get('tags', [])\<close> and \<^verbatim>\<open>message.get('tags', [])\<close>\<close>

definition session_tags :: "session \<Rightarrow> string list" where
  "session_tags s = (case tags_field s of None \<Rightarrow> [] | Some ts \<Rightarrow> ts)"

definition message_tags :: "message \<Rightarrow> string list" where
  "message_tags m = (case msg_tags_field m of None \<Rightarrow> [] | Some ts \<Rightarrow> ts)"

text \<open>\<^verbatim>\<open>message.get('role') == 'user'\<close>: a missing role is \<^verbatim>\<open>None\<close>, which equals no string.\<close>

definition has_role :: "message \<Rightarrow> string \<Rightarrow> bool" where
  "has_role m r = (role m = Some r)"

text \<open>\<^verbatim>\<open>message.get('content', '')\<close>\<close>

definition content_of :: "message \<Rightarrow> string" where
  "content_of m = (case content m of None \<Rightarrow> '''' | Some c \<Rightarrow> c)"

subsection \<open>Exceptions and numbers\<close>

text \<open>
  Exceptions are values: a function that can raise returns \<open>py_error + 'a\<close>, with \<open>Inl\<close>
  for the exception. Python's numbers keep their kind: an \<^verbatim>\<open>int\<close> is \<open>PyInt\<close>, a
  \<^verbatim>\<open>float\<close> is \<open>PyFloat\<close>, and floats are idealised as rationals (the true division of
  two integers is exact in the model).
\<close>

datatype py_error =
  IndexError | ZeroDivisionError | StatisticsError | ValueError | OSError | JSONDecodeError

datatype pynum = PyInt int | PyFloat rat

subsection \<open>String operations\<close>

definition startswith :: "string \<Rightarrow> string \<Rightarrow> bool" where
  "startswith s p = (take (length p) s = p)"

definition endswith :: "string \<Rightarrow> string \<Rightarrow> bool" where
  "endswith s p = (length p \<le> length s \<and> drop (length s - length p) s = p)"

text \<open>
  \<^verbatim>\<open>str.isdigit\<close> is true for a non-empty string of digit characters. Below code point
  256 these are the decimal digits 0 to 9 and the superscripts two, three and one
  (\<^verbatim>\<open>\xb2\<close>, \<^verbatim>\<open>\xb3\<close>, \<^verbatim>\<open>\xb9\<close>). \<^verbatim>\<open>str.isdecimal\<close> accepts the decimal digits only.
\<close>

definition is_decimal_char :: "char \<Rightarrow> bool" where
  "is_decimal_char c = (c \<in> set ''0123456789'')"

definition is_digit_char :: "char \<Rightarrow> bool" where
  "is_digit_char c = (is_decimal_char c \<or> c \<in> set [CHR 0xB2, CHR 0xB3, CHR 0xB9])"

definition isdigit :: "string \<Rightarrow> bool" where
  "isdigit s = (s \<noteq> [] \<and> list_all is_digit_char s)"

definition isdecimal :: "string \<Rightarrow> bool" where
  "isdecimal s = (s \<noteq> [] \<and> list_all is_decimal_char s)"

definition digit_value :: "char \<Rightarrow> int" where
  "digit_value c = int (of_char c) - 48"

definition int_of_digits :: "string \<Rightarrow> int" where
  "int_of_digits s = foldl (\<lambda>acc c. 10 * acc + digit_value c) 0 s"

text \<open>
  \<^verbatim>\<open>int(s)\<close> on a string of digit characters. It is the number written in base ten when
  every character is a decimal digit and there are at most 4300 of them (the
  interpreter's default limit \<^verbatim>\<open>sys.int_info.default_max_str_digits\<close>; leading zeros
  count). It raises \<^verbatim>\<open>ValueError\<close> on a superscript digit and on a longer string. The
  scripts call \<^verbatim>\<open>int\<close> only on a string that \<^verbatim>\<open>str.isdigit\<close> or the class \<^verbatim>\<open>[1-5]\<close> has
  accepted, where the model is exact; on any other string it answers \<^verbatim>\<open>ValueError\<close>.
  Python's integers are unbounded.
\<close>

definition max_str_digits :: nat where
  "max_str_digits = 4300"

definition int_of_str :: "string \<Rightarrow> py_error + int" where
  "int_of_str s =
     (if isdecimal s \<and> length s \<le> max_str_digits then Inr (int_of_digits s)
      else Inl ValueError)"

text \<open>Truth value of an optional list argument: \<^verbatim>\<open>None\<close> and the empty list are false.\<close>

definition truthy :: "'a list option \<Rightarrow> bool" where
  "truthy messages = (case messages of None \<Rightarrow> False | Some ms \<Rightarrow> ms \<noteq> [])"

definition list_or_empty :: "'a list option \<Rightarrow> 'a list" where
  "list_or_empty messages = (case messages of None \<Rightarrow> [] | Some ms \<Rightarrow> ms)"

section \<open>Exclusion filter\<close>

text \<open>
  \<^verbatim>\<open>is_split_session(session, messages=None)\<close> of version_comparison_simple.py and of
  investigate_spike.py (the two bodies are the same text). The optional argument is an
  option: \<open>None\<close> is Python's \<^verbatim>\<open>None\<close>.
\<close>

fun no_user_message :: "message list \<Rightarrow> bool" where
  "no_user_message [] = True"
| "no_user_message (m # ms) = (if has_role m ''user'' then False else no_user_message ms)"

definition is_split_session :: "session \<Rightarrow> message list option \<Rightarrow> bool" where
  "is_split_session s messages =
     (case messages of None \<Rightarrow> False | Some ms \<Rightarrow> no_user_message ms)"

definition is_split_session_spike :: "session \<Rightarrow> message list option \<Rightarrow> bool" where
  "is_split_session_spike s messages =
     (case messages of None \<Rightarrow> False | Some ms \<Rightarrow> no_user_message ms)"

text \<open>
  \<^verbatim>\<open>is_split_session\<close> of gs_score_analysis/analyze_gs_scores_refrigerator.py:
  \<^verbatim>\<open>if not messages: return True\<close>, then the count of user messages is compared with 3.
\<close>

definition user_message_count :: "message list \<Rightarrow> nat" where
  "user_message_count ms = length (filter (\<lambda>msg. has_role msg ''user'') ms)"

definition is_split_session_gs :: "session \<Rightarrow> message list option \<Rightarrow> bool" where
  "is_split_session_gs s messages =
     (case messages of
        None \<Rightarrow> True
      | Some ms \<Rightarrow> if ms = [] then True else user_message_count ms < 3)"

text \<open>
  \<^verbatim>\<open>is_test_session\<close> and \<^verbatim>\<open>should_exclude_session\<close>, the exclusion filter, of
  version_comparison_simple.py, and the functions of the same names and text of
  investigate_spike.py.
\<close>

definition is_test_session :: "session \<Rightarrow> bool" where
  "is_test_session s = endswith (participant_id s) ''@dimagi.com''"

definition should_exclude_session :: "session \<Rightarrow> message list option \<Rightarrow> bool" where
  "should_exclude_session s messages = (is_split_session s messages \<or> is_test_session s)"

definition is_test_session_spike :: "session \<Rightarrow> bool" where
  "is_test_session_spike s = endswith (participant_id s) ''@dimagi.com''"

definition should_exclude_session_spike :: "session \<Rightarrow> message list option \<Rightarrow> bool" where
  "should_exclude_session_spike s messages =
     (is_split_session_spike s messages \<or> is_test_session_spike s)"

section \<open>Version classifier\<close>

text \<open>
  A version configuration, an entry of \<^verbatim>\<open>coaching_bot_versions\<close>: the experiment ids and
  the range, \<^verbatim>\<open>None\<close> or a pair whose upper end may be \<^verbatim>\<open>None\<close>.
\<close>

record version_config =
  cfg_experiment_id :: "string list"
  version_range :: "(int \<times> int option) option"

text \<open>
  The loop over the tags of the last message, with the \<^verbatim>\<open>return 0\<close> that follows it.
  \<^verbatim>\<open>int(tag[1:])\<close> can raise, so the three functions return a value or the exception.
\<close>

fun version_of_tags :: "string list \<Rightarrow> py_error + int" where
  "version_of_tags [] = Inr 0"
| "version_of_tags (tag # tags) =
     (if startswith tag ''v'' \<and> isdigit (drop 1 tag) then int_of_str (drop 1 tag)
      else version_of_tags tags)"

definition get_version_from_last_message :: "message list option \<Rightarrow> py_error + int" where
  "get_version_from_last_message messages =
     (if \<not> truthy messages then Inr 0
      else version_of_tags (message_tags (last (list_or_empty messages))))"

definition matches_version ::
  "session \<Rightarrow> version_config \<Rightarrow> message list option \<Rightarrow> py_error + bool" where
  "matches_version s version_config messages =
     (if experiment_id s \<notin> set (cfg_experiment_id version_config) then Inr False
      else
        case (if truthy messages then get_version_from_last_message messages else Inr 0) of
          Inl e \<Rightarrow> Inl e
        | Inr version_number \<Rightarrow>
            (case version_range version_config of
               None \<Rightarrow> Inr True
             | Some (lo, None) \<Rightarrow> Inr (version_number \<ge> lo)
             | Some (lo, Some hi) \<Rightarrow> Inr (lo \<le> version_number \<and> version_number \<le> hi)))"

text \<open>The table \<^verbatim>\<open>self.coaching_bot_versions\<close> of version_comparison_simple.py, in its order.\<close>

definition coaching_bot_versions :: "(string \<times> version_config) list" where
  "coaching_bot_versions =
     [(''Control bot'',
         \<lparr>cfg_experiment_id = [''1027993a-40c9-4484-a5fb-5c7e034dadcd''], version_range = None\<rparr>),
      (''Coaching bot V3'',
         \<lparr>cfg_experiment_id = [''e2b4855f-8550-47ff-87d2-d92018676ff3''], version_range = None\<rparr>),
      (''Coaching bot V4'',
         \<lparr>cfg_experiment_id = [''b7621271-da98-459f-9f9b-f68335d09ad4''],
          version_range = Some (13, None)\<rparr>),
      (''Coaching bot V5'',
         \<lparr>cfg_experiment_id = [''5d8be75e-03ff-4e3a-ab6a-e0aff6580986''],
          version_range = Some (1, Some 4)\<rparr>),
      (''Coaching bot V6'',
         \<lparr>cfg_experiment_id = [''5d8be75e-03ff-4e3a-ab6a-e0aff6580986''],
          version_range = Some (5, None)\<rparr>)]"

text \<open>
  Two readings of a version tag. \<open>version_tag_test\<close> is the test the code applies: the
  letter v followed by a string that \<^verbatim>\<open>str.isdigit\<close> accepts. \<open>v_digits_form\<close> is the
  form \<^verbatim>\<open>v<digits>\<close> in decimal digits, which is the form of a tag that can be read as a
  number.
\<close>

definition version_tag_test :: "string \<Rightarrow> bool" where
  "version_tag_test t = (startswith t ''v'' \<and> isdigit (drop 1 t))"

definition v_digits_form :: "string \<Rightarrow> bool" where
  "v_digits_form t = (\<exists>ds. t = CHR ''v'' # ds \<and> ds \<noteq> [] \<and> (\<forall>c \<in> set ds. c \<in> set ''0123456789''))"

definition in_version_range :: "int \<times> int option \<Rightarrow> int \<Rightarrow> bool" where
  "in_version_range r v =
     (fst r \<le> v \<and> (case snd r of None \<Rightarrow> True | Some hi \<Rightarrow> v \<le> hi))"

text \<open>Sample data used to run the definitions.\<close>

definition tagged_msg :: "string list \<Rightarrow> message" where
  "tagged_msg ts = \<lparr>role = Some ''assistant'', content = Some ''hello'', msg_tags_field = Some ts\<rparr>"

definition session_of_experiment :: "string \<Rightarrow> session" where
  "session_of_experiment e =
     \<lparr>session_id = Some ''s1'', participant_field = None,
      experiment_field = Some \<lparr>exp_id = Some e\<rparr>, tags_field = None\<rparr>"

definition user_msg :: "string \<Rightarrow> message" where
  "user_msg c = \<lparr>role = Some ''user'', content = Some c, msg_tags_field = None\<rparr>"

definition assistant_msg :: "string \<Rightarrow> message" where
  "assistant_msg c = \<lparr>role = Some ''assistant'', content = Some c, msg_tags_field = None\<rparr>"

definition bare_session :: session where
  "bare_session = \<lparr>session_id = None, participant_field = None, experiment_field = None,
                    tags_field = None\<rparr>"

definition session_of_participant :: "string \<Rightarrow> session" where
  "session_of_participant i =
     bare_session\<lparr>participant_field := Some \<lparr>identifier_field = Some i\<rparr>\<rparr>"

section \<open>Coaching-method classifier\<close>

text \<open>
  \<^verbatim>\<open>str.lower\<close> and the substring test \<^verbatim>\<open>keyword in content\<close>. The letters with a
  lower case are A to Z and, beyond ASCII, the capitals \<^verbatim>\<open>\xc0\<close> to \<^verbatim>\<open>\xde\<close> without the
  multiplication sign \<^verbatim>\<open>\xd7\<close>; each maps to the code point 32 above it.
\<close>

definition upper_case_chars :: string where
  "upper_case_chars =
     ''ABCDEFGHIJKLMNOPQRSTUVWXYZ'' @
     [CHR 0xC0, CHR 0xC1, CHR 0xC2, CHR 0xC3, CHR 0xC4, CHR 0xC5, CHR 0xC6, CHR 0xC7,
      CHR 0xC8, CHR 0xC9, CHR 0xCA, CHR 0xCB, CHR 0xCC, CHR 0xCD, CHR 0xCE, CHR 0xCF,
      CHR 0xD0, CHR 0xD1, CHR 0xD2, CHR 0xD3, CHR 0xD4, CHR 0xD5, CHR 0xD6, CHR 0xD8,
      CHR 0xD9, CHR 0xDA, CHR 0xDB, CHR 0xDC, CHR 0xDD, CHR 0xDE]"

definition lower_case_chars :: string where
  "lower_case_chars =
     ''abcdefghijklmnopqrstuvwxyz'' @
     [CHR 0xE0, CHR 0xE1, CHR 0xE2, CHR 0xE3, CHR 0xE4, CHR 0xE5, CHR 0xE6, CHR 0xE7,
      CHR 0xE8, CHR 0xE9, CHR 0xEA, CHR 0xEB, CHR 0xEC, CHR 0xED, CHR 0xEE, CHR 0xEF,
      CHR 0xF0, CHR 0xF1, CHR 0xF2, CHR 0xF3, CHR 0xF4, CHR 0xF5, CHR 0xF6, CHR 0xF8,
      CHR 0xF9, CHR 0xFA, CHR 0xFB, CHR 0xFC, CHR 0xFD, CHR 0xFE]"

definition lower_char :: "char \<Rightarrow> char" where
  "lower_char c =
     (case map_of (zip upper_case_chars lower_case_chars) c of
        Some d \<Rightarrow> d
      | None \<Rightarrow> c)"

definition lower :: "string \<Rightarrow> string" where
  "lower s = map lower_char s"

definition contains :: "string \<Rightarrow> string \<Rightarrow> bool" where
  "contains c keyword = sublist keyword c"

text \<open>
  \<^verbatim>\<open>detect_coaching_method\<close>; the text is the same in version_comparison_simple.py,
  find_v6_unknown_sessions.py and investigate_spike.py. The chain of comparisons on a tag
  is \<open>method_of_tag\<close>; each \<^verbatim>\<open>for\<close> loop with its early \<^verbatim>\<open>return\<close> is a recursive function
  that answers \<open>Some\<close> result when the loop returns and \<open>None\<close> when it runs to its end.
\<close>

definition method_of_tag :: "string \<Rightarrow> string option" where
  "method_of_tag tag =
     (if tag = ''coach_method_scenarios'' then Some ''Scenario''
      else if tag = ''coach_method_microlearning'' then Some ''Microlearning''
      else if tag = ''coach_method_microlearning_vaccine'' then Some ''Microlearning vaccines''
      else if tag = ''coach_method_motivational_interviewing'' then Some ''Motivational interviewing''
      else if tag = ''coach_method_visit_debrief'' then Some ''Visit check in''
      else None)"

fun tags_loop :: "string list \<Rightarrow> string option" where
  "tags_loop [] = None"
| "tags_loop (tag # tags) =
     (case method_of_tag tag of Some r \<Rightarrow> Some r | None \<Rightarrow> tags_loop tags)"

fun message_tags_loop :: "message list \<Rightarrow> string option" where
  "message_tags_loop [] = None"
| "message_tags_loop (m # ms) =
     (case tags_loop (message_tags m) of Some r \<Rightarrow> Some r | None \<Rightarrow> message_tags_loop ms)"

definition any_keyword :: "string \<Rightarrow> string list \<Rightarrow> bool" where
  "any_keyword c keywords = list_ex (\<lambda>keyword. contains c keyword) keywords"

definition method_of_content :: "string \<Rightarrow> string option" where
  "method_of_content c =
     (if any_keyword c [''roleplay'', ''role-play'', ''scenario 1:'', ''scenario 2:'']
        then Some ''Scenario''
      else if any_keyword c [''quiz'', ''microlearning'', ''short quiz questions'']
        then Some ''Microlearning''
      else if any_keyword c [''motivational interview'', ''motivational interviewing'']
        then Some ''Motivational interviewing''
      else if any_keyword c [''visit debrief'', ''home visits'', ''most recent visit'']
        then Some ''Visit check in''
      else None)"

fun content_loop :: "message list \<Rightarrow> string option" where
  "content_loop [] = None"
| "content_loop (m # ms) =
     (if has_role m ''assistant''
      then (case method_of_content (lower (content_of m)) of
              Some r \<Rightarrow> Some r
            | None \<Rightarrow> content_loop ms)
      else content_loop ms)"

definition detect_coaching_method :: "session \<Rightarrow> message list option \<Rightarrow> string" where
  "detect_coaching_method s messages =
     (case tags_loop (session_tags s) of
        Some r \<Rightarrow> r
      | None \<Rightarrow>
          (case (if truthy messages then message_tags_loop (list_or_empty messages) else None) of
             Some r \<Rightarrow> r
           | None \<Rightarrow>
               (case (if truthy messages then content_loop (list_or_empty messages) else None) of
                  Some r \<Rightarrow> r
                | None \<Rightarrow> ''Unknown'')))"

text \<open>
  The three tiers as the specification names them: the first coaching-method tag of the
  session, the first coaching-method tag of the messages in order, and the first
  assistant message whose lower-cased text holds a keyword.
\<close>

definition method_names :: "string list" where
  "method_names =
     [''Scenario'', ''Microlearning'', ''Microlearning vaccines'', ''Motivational interviewing'',
      ''Visit check in'', ''Unknown'']"

definition is_method_tag :: "string \<Rightarrow> bool" where
  "is_method_tag tag =
     (tag \<in> set [''coach_method_scenarios'', ''coach_method_microlearning'',
                  ''coach_method_microlearning_vaccine'',
                  ''coach_method_motivational_interviewing'', ''coach_method_visit_debrief''])"

definition session_tier :: "session \<Rightarrow> string option" where
  "session_tier s = Option.bind (find is_method_tag (session_tags s)) method_of_tag"

definition message_tier :: "message list option \<Rightarrow> string option" where
  "message_tier messages =
     Option.bind (find is_method_tag (concat (map message_tags (list_or_empty messages))))
       method_of_tag"

definition has_keyword :: "string \<Rightarrow> bool" where
  "has_keyword c =
     (\<exists>keyword \<in> set [''roleplay'', ''role-play'', ''scenario 1:'', ''scenario 2:'',
                        ''quiz'', ''microlearning'', ''short quiz questions'',
                        ''motivational interview'', ''motivational interviewing'',
                        ''visit debrief'', ''home visits'', ''most recent visit''].
        contains c keyword)"

definition keyword_tier :: "message list option \<Rightarrow> string option" where
  "keyword_tier messages =
     Option.bind
       (find has_keyword
          (map (\<lambda>m. lower (content_of m))
             (filter (\<lambda>m. has_role m ''assistant'') (list_or_empty messages))))
       method_of_content"

text \<open>
  Subscription \<^verbatim>\<open>xs[i]\<close> of a Python list: positions \<^verbatim>\<open>0 .. len-1\<close> read from the
  front, positions \<^verbatim>\<open>-len .. -1\<close> read from the back, any other position raises.
\<close>

definition py_index :: "'a list \<Rightarrow> int \<Rightarrow> py_error + 'a" where
  "py_index xs i =
     (if 0 \<le> i \<and> i < int (length xs) then Inr (xs ! nat i)
      else if - int (length xs) \<le> i \<and> i < 0 then Inr (xs ! nat (int (length xs) + i))
      else Inl IndexError)"

section \<open>Medians\<close>

text \<open>
  The median of one cell of \<^verbatim>\<open>calculate_median_words_by_method_and_version\<close>
  (version_comparison_simple.py, the block under \<^verbatim>\<open># Calculate medians\<close>): the list is
  sorted in place and indexed by hand; an empty list gives \<^verbatim>\<open>0.0\<close>.
\<close>

definition median_of_word_counts :: "int list \<Rightarrow> py_error + pynum" where
  "median_of_word_counts word_counts =
     (if word_counts \<noteq> [] then
        let sorted_counts = sort word_counts;
            n = int (length sorted_counts)
        in if n mod 2 = 0 then
             (case py_index sorted_counts (n div 2 - 1) of
                Inl e \<Rightarrow> Inl e
              | Inr a \<Rightarrow>
                  (case py_index sorted_counts (n div 2) of
                     Inl e \<Rightarrow> Inl e
                   | Inr b \<Rightarrow> Inr (PyFloat (of_int (a + b) / 2))))
           else
             (case py_index sorted_counts (n div 2) of
                Inl e \<Rightarrow> Inl e
              | Inr a \<Rightarrow> Inr (PyInt a))
      else Inr (PyFloat 0))"

text \<open>
  \<^verbatim>\<open>statistics.median\<close> of Python's standard library, as its documentation and source
  give it: the data is sorted; no data raises \<^verbatim>\<open>StatisticsError\<close>; an odd number of
  points gives the middle one, an even number the mean of the two middle ones.
\<close>

definition statistics_median :: "int list \<Rightarrow> py_error + pynum" where
  "statistics_median xs =
     (let data = sort xs; n = int (length data)
      in if n = 0 then Inl StatisticsError
         else if n mod 2 = 1 then
           (case py_index data (n div 2) of Inl e \<Rightarrow> Inl e | Inr a \<Rightarrow> Inr (PyInt a))
         else
           (let i = n div 2
            in case py_index data (i - 1) of
                 Inl e \<Rightarrow> Inl e
               | Inr a \<Rightarrow>
                   (case py_index data i of
                      Inl e \<Rightarrow> Inl e
                    | Inr b \<Rightarrow> Inr (PyFloat (of_int (a + b) / 2)))))"

text \<open>
  The end of \<^verbatim>\<open>calculate_median_human_words\<close>, from \<^verbatim>\<open>if not session_word_counts\<close> on.
\<close>

definition median_human_words_of_counts :: "int list \<Rightarrow> py_error + pynum" where
  "median_human_words_of_counts session_word_counts =
     (if session_word_counts = [] then Inr (PyFloat 0)
      else statistics_median session_word_counts)"

section \<open>Refrigerator-example rates\<close>

text \<open>
  \<^verbatim>\<open>a / b\<close> on two counts: true division, \<^verbatim>\<open>ZeroDivisionError\<close> for a zero divisor.
\<close>

definition py_truediv :: "nat \<Rightarrow> nat \<Rightarrow> py_error + rat" where
  "py_truediv a b = (if b = 0 then Inl ZeroDivisionError else Inr (of_nat a / of_nat b))"

text \<open>
  \<^verbatim>\<open>messages_data.get(session_id, [])\<close>: the message dictionary is keyed by session id; a
  session without an id finds no entry.
\<close>

definition messages_of :: "(string \<rightharpoonup> message list) \<Rightarrow> string option \<Rightarrow> message list" where
  "messages_of messages_data sid =
     (case sid of
        None \<Rightarrow> []
      | Some i \<Rightarrow> (case messages_data i of None \<Rightarrow> [] | Some ms \<Rightarrow> ms))"

text \<open>\<^verbatim>\<open>has_refrigerator_example_tag\<close> and \<^verbatim>\<open>has_refrigerator_annotation\<close>.\<close>

definition has_refrigerator_example_tag :: "session \<Rightarrow> message list option \<Rightarrow> bool" where
  "has_refrigerator_example_tag s messages =
     (if ''refrigerator_example'' \<in> set (session_tags s) then True
      else if truthy messages
        then list_ex (\<lambda>m. ''refrigerator_example'' \<in> set (message_tags m)) (list_or_empty messages)
      else False)"

definition has_refrigerator_annotation :: "session \<Rightarrow> message list option \<Rightarrow> bool" where
  "has_refrigerator_annotation s messages =
     (if ''refrigerator_example'' \<in> set (session_tags s) \<or>
         ''not_refrigerator_example'' \<in> set (session_tags s) then True
      else if truthy messages
        then list_ex (\<lambda>m. ''refrigerator_example'' \<in> set (message_tags m) \<or>
                           ''not_refrigerator_example'' \<in> set (message_tags m))
               (list_or_empty messages)
      else False)"

text \<open>
  \<^verbatim>\<open>calculate_refrigerator_rate_by_method\<close>. A dictionary that the code builds and then
  walks with \<^verbatim>\<open>.items()\<close> is an association list in insertion order.
  \<open>append_to\<close> is \<^verbatim>\<open>if method not in d: d[method] = []\<close> followed by
  \<^verbatim>\<open>d[method].append(v)\<close>.
\<close>

fun append_to :: "'k \<Rightarrow> 'v \<Rightarrow> ('k \<times> 'v list) list \<Rightarrow> ('k \<times> 'v list) list" where
  "append_to k v [] = [(k, [v])]"
| "append_to k v ((k', vs) # rest) =
     (if k = k' then (k', vs @ [v]) # rest else (k', vs) # append_to k v rest)"

fun group_by_method ::
  "(string \<rightharpoonup> message list) \<Rightarrow> (string \<times> (session \<times> message list) list) list \<Rightarrow>
   session list \<Rightarrow> (string \<times> (session \<times> message list) list) list" where
  "group_by_method messages_data method_sessions [] = method_sessions"
| "group_by_method messages_data method_sessions (s # sessions) =
     (let messages = messages_of messages_data (session_id s)
      in if should_exclude_session s (Some messages)
         then group_by_method messages_data method_sessions sessions
         else group_by_method messages_data
                (append_to (detect_coaching_method s (Some messages)) (s, messages) method_sessions)
                sessions)"

definition method_rate :: "(session \<times> message list) list \<Rightarrow> py_error + rat" where
  "method_rate session_list =
     (let annotated_sessions =
            filter (\<lambda>(s, messages). has_refrigerator_annotation s (Some messages)) session_list
      in if annotated_sessions = [] then Inr 0
         else
           let refrigerator_count =
                 length (filter (\<lambda>(s, messages). has_refrigerator_example_tag s (Some messages))
                           annotated_sessions)
           in case py_truediv refrigerator_count (length annotated_sessions) of
                Inl e \<Rightarrow> Inl e
              | Inr q \<Rightarrow> Inr (q * 100))"

fun method_rates_loop ::
  "(string \<times> (session \<times> message list) list) list \<Rightarrow> py_error + (string \<times> rat) list" where
  "method_rates_loop [] = Inr []"
| "method_rates_loop ((method, session_list) # rest) =
     (case method_rate session_list of
        Inl e \<Rightarrow> Inl e
      | Inr rate \<Rightarrow>
          (case method_rates_loop rest of
             Inl e \<Rightarrow> Inl e
           | Inr rates \<Rightarrow> Inr ((method, rate) # rates)))"

definition calculate_refrigerator_rate_by_method ::
  "session list \<Rightarrow> (string \<rightharpoonup> message list) \<Rightarrow> py_error + (string \<times> rat) list" where
  "calculate_refrigerator_rate_by_method sessions messages_data =
     method_rates_loop (group_by_method messages_data [] sessions)"

text \<open>
  \<^verbatim>\<open>calculate_participant_refrigerator_rates\<close> of
  gs_score_analysis/analyze_gs_scores_refrigerator.py. The statistics of a participant
  are a record; the two rates are absent until the second loop stores them. The
  \<^verbatim>\<open>defaultdict\<close> creates the entry of a participant at the first access.
\<close>

record participant_stats =
  total_sessions :: nat
  refrigerator_sessions :: nat
  non_refrigerator_sessions :: nat
  split_sessions :: nat
  refrigerator_split_sessions :: nat
  session_ids :: "string list"
  refrigerator_session_ids :: "string list"
  non_refrigerator_session_ids :: "string list"
  split_session_ids :: "string list"
  refrigerator_rate :: "rat option"
  refrigerator_rate_with_split :: "rat option"

definition default_stats :: participant_stats where
  "default_stats =
     \<lparr>total_sessions = 0, refrigerator_sessions = 0, non_refrigerator_sessions = 0,
      split_sessions = 0, refrigerator_split_sessions = 0, session_ids = [],
      refrigerator_session_ids = [], non_refrigerator_session_ids = [],
      split_session_ids = [], refrigerator_rate = None, refrigerator_rate_with_split = None\<rparr>"

fun update_stats ::
  "string \<Rightarrow> (participant_stats \<Rightarrow> participant_stats) \<Rightarrow>
   (string \<times> participant_stats) list \<Rightarrow> (string \<times> participant_stats) list" where
  "update_stats pid f [] = [(pid, f default_stats)]"
| "update_stats pid f ((k, st) # rest) =
     (if pid = k then (k, f st) # rest else (k, st) # update_stats pid f rest)"

definition is_refrigerator_example :: "session \<Rightarrow> message list option \<Rightarrow> bool" where
  "is_refrigerator_example s messages =
     (if ''refrigerator_example'' \<in> set (session_tags s) then True
      else if truthy messages
        then list_ex (\<lambda>m. ''refrigerator_example'' \<in> set (message_tags m)) (list_or_empty messages)
      else False)"

text \<open>The body of the first loop for a session that passed the two \<^verbatim>\<open>continue\<close> checks.\<close>

definition count_session ::
  "bool \<Rightarrow> session \<Rightarrow> string \<Rightarrow> message list \<Rightarrow> participant_stats \<Rightarrow> participant_stats" where
  "count_session include_split_sessions s sid messages st =
     (let is_split = is_split_session_gs s (Some messages);
          is_ref = is_refrigerator_example s (Some messages);
          st1 = (if is_split
                 then st\<lparr>split_sessions := split_sessions st + 1,
                         split_session_ids := split_session_ids st @ [sid],
                         refrigerator_split_sessions :=
                           (if is_ref then refrigerator_split_sessions st + 1
                            else refrigerator_split_sessions st)\<rparr>
                 else st)
      in if is_split \<and> \<not> include_split_sessions then st1
         else
           let st2 = st1\<lparr>total_sessions := total_sessions st1 + 1,
                          session_ids := session_ids st1 @ [sid]\<rparr>
           in if is_ref
              then st2\<lparr>refrigerator_sessions := refrigerator_sessions st2 + 1,
                       refrigerator_session_ids := refrigerator_session_ids st2 @ [sid]\<rparr>
              else st2\<lparr>non_refrigerator_sessions := non_refrigerator_sessions st2 + 1,
                       non_refrigerator_session_ids := non_refrigerator_session_ids st2 @ [sid]\<rparr>)"

fun count_sessions ::
  "bool \<Rightarrow> (string \<rightharpoonup> message list) \<Rightarrow> (string \<times> participant_stats) list \<Rightarrow>
   session list \<Rightarrow> (string \<times> participant_stats) list" where
  "count_sessions include_split_sessions messages_data stats [] = stats"
| "count_sessions include_split_sessions messages_data stats (s # sessions) =
     (let pid = participant_id s
      in if pid = [] \<or> endswith pid ''@dimagi.com''
         then count_sessions include_split_sessions messages_data stats sessions
         else
           let sid = (case session_id s of None \<Rightarrow> [] | Some i \<Rightarrow> i)
           in if sid = []
              then count_sessions include_split_sessions messages_data stats sessions
              else count_sessions include_split_sessions messages_data
                     (update_stats pid
                        (count_session include_split_sessions s sid
                           (messages_of messages_data (Some sid)))
                        stats)
                     sessions)"

definition store_rates :: "participant_stats \<Rightarrow> py_error + participant_stats" where
  "store_rates st =
     (let total = total_sessions st in
      case (if total > 0
            then (case py_truediv (refrigerator_sessions st) total of
                    Inl e \<Rightarrow> Inl e | Inr q \<Rightarrow> Inr (q * 100))
            else Inr 0) of
        Inl e \<Rightarrow> Inl e
      | Inr rate \<Rightarrow>
          (let total_with_split = total + split_sessions st in
           case (if total_with_split > 0
                 then (case py_truediv (refrigerator_sessions st + refrigerator_split_sessions st)
                              total_with_split of
                         Inl e \<Rightarrow> Inl e | Inr q \<Rightarrow> Inr (q * 100))
                 else Inr 0) of
             Inl e \<Rightarrow> Inl e
           | Inr rate_with_split \<Rightarrow>
               Inr (st\<lparr>refrigerator_rate := Some rate,
                        refrigerator_rate_with_split := Some rate_with_split\<rparr>)))"

fun store_rates_loop ::
  "(string \<times> participant_stats) list \<Rightarrow> py_error + (string \<times> participant_stats) list" where
  "store_rates_loop [] = Inr []"
| "store_rates_loop ((pid, st) # rest) =
     (case store_rates st of
        Inl e \<Rightarrow> Inl e
      | Inr st' \<Rightarrow>
          (case store_rates_loop rest of
             Inl e \<Rightarrow> Inl e
           | Inr rest' \<Rightarrow> Inr ((pid, st') # rest')))"

definition calculate_participant_refrigerator_rates ::
  "session list \<Rightarrow> (string \<rightharpoonup> message list) \<Rightarrow> bool \<Rightarrow>
   py_error + (string \<times> participant_stats) list" where
  "calculate_participant_refrigerator_rates sessions messages_data include_split_sessions =
     store_rates_loop (count_sessions include_split_sessions messages_data [] sessions)"

text \<open>
  What the counting loop maintains for every participant, and what the second loop
  leaves in every entry: both rates stored, each between 0 and 100, and 0 where the
  divisor would be zero.
\<close>

definition stats_ok :: "participant_stats \<Rightarrow> bool" where
  "stats_ok st \<longleftrightarrow>
     refrigerator_sessions st \<le> total_sessions st \<and>
     refrigerator_split_sessions st \<le> split_sessions st"

definition rates_stored :: "participant_stats \<Rightarrow> bool" where
  "rates_stored st \<longleftrightarrow>
     (\<exists>r rs. refrigerator_rate st = Some r \<and> refrigerator_rate_with_split st = Some rs \<and>
        0 \<le> r \<and> r \<le> 100 \<and> 0 \<le> rs \<and> rs \<le> 100 \<and>
        (total_sessions st = 0 \<longrightarrow> r = 0) \<and>
        (total_sessions st + split_sessions st = 0 \<longrightarrow> rs = 0))"

text \<open>Sample sessions and messages used to run the aggregators.\<close>

definition sample_session :: "string \<Rightarrow> string \<Rightarrow> string list \<Rightarrow> session" where
  "sample_session i p ts =
     \<lparr>session_id = Some i, participant_field = Some \<lparr>identifier_field = Some p\<rparr>,
      experiment_field = None, tags_field = Some ts\<rparr>"

definition sample_sessions :: "session list" where
  "sample_sessions =
     [sample_session ''a'' ''p1'' [''coach_method_scenarios'', ''refrigerator_example''],
      sample_session ''b'' ''p1'' [''coach_method_scenarios'', ''not_refrigerator_example''],
      sample_session ''c'' ''p2'' [''coach_method_microlearning'']]"

definition sample_messages :: "string \<rightharpoonup> message list" where
  "sample_messages =
     map_of [(''a'', [user_msg ''hi'', user_msg ''yes'', user_msg ''bye'']),
             (''b'', [user_msg ''hi'', user_msg ''no'', user_msg ''bye'']),
             (''c'', [user_msg ''hi''])]"

section \<open>Loaders\<close>

text \<open>
  A file of the data directory, as the loaders meet it: the stem of its name and the
  outcome of \<^verbatim>\<open>open\<close> followed by \<^verbatim>\<open>json.load\<close>, which is the decoded document or the
  exception raised (the file cannot be read, or its text is not JSON). A directory is
  the list of its files in the order \<^verbatim>\<open>glob\<close> yields them, or \<open>None\<close> when it does
  not exist.
\<close>

record 'a json_file =
  stem :: string
  loaded :: "py_error + 'a"

text \<open>The document of a message file: \<^verbatim>\<open>{'messages': [...], ...}\<close>, the key possibly missing.\<close>

record message_doc =
  messages_field :: "message list option"

text \<open>
  \<^verbatim>\<open>s.replace(old, '')\<close>: every occurrence of \<^verbatim>\<open>old\<close> is removed, scanning from the left
  without overlap.
\<close>

function remove_all :: "string \<Rightarrow> string \<Rightarrow> string" where
  "remove_all old s =
     (if s = [] then []
      else if old \<noteq> [] \<and> prefix old s then remove_all old (drop (length old) s)
      else hd s # remove_all old (tl s))"
  by pat_completeness auto
termination
  by (relation "measure (\<lambda>(old, s). length s)") (auto simp: prefix_def)

declare remove_all.simps [simp del]

text \<open>
  \<^verbatim>\<open>load_sessions_and_messages\<close> (find_v6_unknown_sessions.py; the same text in
  investigate_spike.py, comprehensive_rating_analysis.py, analyze_rating_question.py and
  gs_score_analysis/analyze_gs_scores_refrigerator.py). The body of each \<^verbatim>\<open>try\<close> is a
  function that returns the new state or the exception; the loop applies the handler
  \<^verbatim>\<open>except Exception: continue\<close>, which keeps the state as it was.
\<close>

definition try_append_session :: "session json_file \<Rightarrow> session list \<Rightarrow> py_error + session list" where
  "try_append_session session_file sessions =
     (case loaded session_file of
        Inl e \<Rightarrow> Inl e
      | Inr s \<Rightarrow> Inr (sessions @ [s]))"

fun sessions_loop :: "session list \<Rightarrow> session json_file list \<Rightarrow> session list" where
  "sessions_loop sessions [] = sessions"
| "sessions_loop sessions (session_file # session_files) =
     (case try_append_session session_file sessions of
        Inl e \<Rightarrow> sessions_loop sessions session_files
      | Inr sessions' \<Rightarrow> sessions_loop sessions' session_files)"

definition try_store_messages ::
  "message_doc json_file \<Rightarrow> (string \<rightharpoonup> message list) \<Rightarrow> py_error + (string \<rightharpoonup> message list)" where
  "try_store_messages message_file messages_data =
     (case loaded message_file of
        Inl e \<Rightarrow> Inl e
      | Inr session_data \<Rightarrow>
          let sid = remove_all ''messages_'' (stem message_file);
              messages = (case messages_field session_data of None \<Rightarrow> [] | Some ms \<Rightarrow> ms)
          in Inr (messages_data(sid \<mapsto> messages)))"

fun messages_loop ::
  "(string \<rightharpoonup> message list) \<Rightarrow> message_doc json_file list \<Rightarrow> (string \<rightharpoonup> message list)" where
  "messages_loop messages_data [] = messages_data"
| "messages_loop messages_data (message_file # message_files) =
     (case try_store_messages message_file messages_data of
        Inl e \<Rightarrow> messages_loop messages_data message_files
      | Inr messages_data' \<Rightarrow> messages_loop messages_data' message_files)"

definition load_sessions_and_messages ::
  "session json_file list option \<Rightarrow> message_doc json_file list option \<Rightarrow>
   session list \<times> (string \<rightharpoonup> message list)" where
  "load_sessions_and_messages sessions_dir messages_dir =
     (case (sessions_dir, messages_dir) of
        (Some session_files, Some message_files) \<Rightarrow>
          (sessions_loop [] session_files, messages_loop Map.empty message_files)
      | _ \<Rightarrow> ([], Map.empty))"

text \<open>
  \<^verbatim>\<open>load_sessions_from_files\<close> and \<^verbatim>\<open>load_messages_from_files\<close> of
  version_comparison_simple.py. The state of the first loop is the list of sessions kept
  and the count of staff sessions left out.
\<close>

definition relevant_experiment_ids :: "string list" where
  "relevant_experiment_ids = concat (map (\<lambda>(name, cfg). cfg_experiment_id cfg) coaching_bot_versions)"

definition try_filter_session ::
  "session json_file \<Rightarrow> session list \<times> nat \<Rightarrow> py_error + session list \<times> nat" where
  "try_filter_session session_file st =
     (case loaded session_file of
        Inl e \<Rightarrow> Inl e
      | Inr s \<Rightarrow>
          if endswith (participant_id s) ''@dimagi.com'' then Inr (fst st, snd st + 1)
          else if experiment_id s \<in> set relevant_experiment_ids then Inr (fst st @ [s], snd st)
          else Inr st)"

fun filtered_sessions_loop ::
  "session list \<times> nat \<Rightarrow> session json_file list \<Rightarrow> session list \<times> nat" where
  "filtered_sessions_loop st [] = st"
| "filtered_sessions_loop st (session_file # session_files) =
     (case try_filter_session session_file st of
        Inl e \<Rightarrow> filtered_sessions_loop st session_files
      | Inr st' \<Rightarrow> filtered_sessions_loop st' session_files)"

definition load_sessions_from_files :: "session json_file list option \<Rightarrow> session list" where
  "load_sessions_from_files sessions_dir =
     (case sessions_dir of
        None \<Rightarrow> []
      | Some session_files \<Rightarrow> fst (filtered_sessions_loop ([], 0) session_files))"

definition try_filter_messages ::
  "string list \<Rightarrow> message_doc json_file \<Rightarrow> (string \<rightharpoonup> message list) \<Rightarrow>
   py_error + (string \<rightharpoonup> message list)" where
  "try_filter_messages wanted_ids message_file filtered_messages =
     (let sid = remove_all ''messages_'' (stem message_file)
      in if sid \<in> set wanted_ids then
           (case loaded message_file of
              Inl e \<Rightarrow> Inl e
            | Inr message_data \<Rightarrow>
                (case messages_field message_data of
                   None \<Rightarrow> Inr filtered_messages
                 | Some ms \<Rightarrow> Inr (filtered_messages(sid \<mapsto> ms))))
         else Inr filtered_messages)"

fun filtered_messages_loop ::
  "string list \<Rightarrow> (string \<rightharpoonup> message list) \<Rightarrow> message_doc json_file list \<Rightarrow>
   (string \<rightharpoonup> message list)" where
  "filtered_messages_loop wanted_ids filtered_messages [] = filtered_messages"
| "filtered_messages_loop wanted_ids filtered_messages (message_file # message_files) =
     (case try_filter_messages wanted_ids message_file filtered_messages of
        Inl e \<Rightarrow> filtered_messages_loop wanted_ids filtered_messages message_files
      | Inr filtered_messages' \<Rightarrow>
          filtered_messages_loop wanted_ids filtered_messages' message_files)"

definition load_messages_from_files ::
  "string list \<Rightarrow> message_doc json_file list option \<Rightarrow> (string \<rightharpoonup> message list)" where
  "load_messages_from_files wanted_ids messages_dir =
     (case messages_dir of
        None \<Rightarrow> Map.empty
      | Some message_files \<Rightarrow> filtered_messages_loop wanted_ids Map.empty message_files)"

text \<open>
  The files that were read and decoded, with their stems and documents, in directory
  order; and the entries a list of decoded message files contributes to the dictionary.
\<close>

definition parsed :: "'a json_file list \<Rightarrow> (string \<times> 'a) list" where
  "parsed files =
     List.map_filter
       (\<lambda>f. case loaded f of Inl e \<Rightarrow> None | Inr d \<Rightarrow> Some (stem f, d)) files"

definition message_entries :: "(string \<times> message_doc) list \<Rightarrow> (string \<times> message list) list" where
  "message_entries docs =
     map (\<lambda>(st, d). (remove_all ''messages_'' st,
                      case messages_field d of None \<Rightarrow> [] | Some ms \<Rightarrow> ms)) docs"

definition filtered_message_entries ::
  "string list \<Rightarrow> (string \<times> message_doc) list \<Rightarrow> (string \<times> message list) list" where
  "filtered_message_entries wanted_ids docs =
     List.map_filter
       (\<lambda>(st, d). if remove_all ''messages_'' st \<in> set wanted_ids
                   then map_option (\<lambda>ms. (remove_all ''messages_'' st, ms)) (messages_field d)
                   else None) docs"

definition kept_session :: "session \<Rightarrow> bool" where
  "kept_session s \<longleftrightarrow>
     \<not> endswith (participant_id s) ''@dimagi.com'' \<and>
     experiment_id s \<in> set relevant_experiment_ids"

text \<open>A sample directory: two good files around one that fails.\<close>

definition sample_session_files :: "session json_file list" where
  "sample_session_files =
     [\<lparr>stem = ''session_a'',
       loaded = Inr (session_of_experiment ''5d8be75e-03ff-4e3a-ab6a-e0aff6580986'')\<rparr>,
      \<lparr>stem = ''session_bad'', loaded = Inl JSONDecodeError\<rparr>,
      \<lparr>stem = ''session_c'', loaded = Inr (session_of_participant ''amy@dimagi.com'')\<rparr>]"

definition sample_message_files :: "message_doc json_file list" where
  "sample_message_files =
     [\<lparr>stem = ''messages_a'', loaded = Inr \<lparr>messages_field = Some [user_msg ''hi'']\<rparr>\<rparr>,
      \<lparr>stem = ''messages_bad'', loaded = Inl OSError\<rparr>,
      \<lparr>stem = ''messages_c'', loaded = Inr \<lparr>messages_field = None\<rparr>\<rparr>]"

section \<open>Rating extractor\<close>

subsection \<open>Whitespace and word characters\<close>

text \<open>
  \<^verbatim>\<open>str.isspace\<close> on one character, which is also what \<^verbatim>\<open>\s\<close> matches and what
  \<^verbatim>\<open>str.strip\<close> removes: tab, line feed, vertical tab, form feed, carriage return, the four
  separators \<^verbatim>\<open>\x1c\<close> to \<^verbatim>\<open>\x1f\<close>, the space, the next-line control \<^verbatim>\<open>\x85\<close> and the
  no-break space \<^verbatim>\<open>\xa0\<close>. A word character (\<^verbatim>\<open>\w\<close>) is the underscore or a character
  that \<^verbatim>\<open>str.isalnum\<close> accepts: the ASCII letters and digits, and beyond ASCII the
  letters, superscript digits and fractions of the second list.
\<close>

definition is_space :: "char \<Rightarrow> bool" where
  "is_space c =
     (c \<in> set [CHR 0x09, CHR 0x0A, CHR 0x0B, CHR 0x0C, CHR 0x0D,
                CHR 0x1C, CHR 0x1D, CHR 0x1E, CHR 0x1F, CHR '' '', CHR 0x85, CHR 0xA0])"

definition is_word_char :: "char \<Rightarrow> bool" where
  "is_word_char c =
     (c \<in> set ''abcdefghijklmnopqrstuvwxyzABCDEFGHIJKLMNOPQRSTUVWXYZ0123456789_'' \<or>
      c \<in> set
        [CHR 0xAA, CHR 0xB2, CHR 0xB3, CHR 0xB5, CHR 0xB9, CHR 0xBA, CHR 0xBC, CHR 0xBD,
         CHR 0xBE, CHR 0xC0, CHR 0xC1, CHR 0xC2, CHR 0xC3, CHR 0xC4, CHR 0xC5, CHR 0xC6,
         CHR 0xC7, CHR 0xC8, CHR 0xC9, CHR 0xCA, CHR 0xCB, CHR 0xCC, CHR 0xCD, CHR 0xCE,
         CHR 0xCF, CHR 0xD0, CHR 0xD1, CHR 0xD2, CHR 0xD3, CHR 0xD4, CHR 0xD5, CHR 0xD6,
         CHR 0xD8, CHR 0xD9, CHR 0xDA, CHR 0xDB, CHR 0xDC, CHR 0xDD, CHR 0xDE, CHR 0xDF,
         CHR 0xE0, CHR 0xE1, CHR 0xE2, CHR 0xE3, CHR 0xE4, CHR 0xE5, CHR 0xE6, CHR 0xE7,
         CHR 0xE8, CHR 0xE9, CHR 0xEA, CHR 0xEB, CHR 0xEC, CHR 0xED, CHR 0xEE, CHR 0xEF,
         CHR 0xF0, CHR 0xF1, CHR 0xF2, CHR 0xF3, CHR 0xF4, CHR 0xF5, CHR 0xF6, CHR 0xF8,
         CHR 0xF9, CHR 0xFA, CHR 0xFB, CHR 0xFC, CHR 0xFD, CHR 0xFE, CHR 0xFF])"

definition strip :: "string \<Rightarrow> string" where
  "strip s = rev (dropWhile is_space (rev (dropWhile is_space s)))"

subsection \<open>Regular expressions\<close>

text \<open>
  The patterns of the scripts use literal text, the dot, the class \<^verbatim>\<open>[1-5]\<close>, \<^verbatim>\<open>\s\<close>, the
  star on a single character, and the assertions \<^verbatim>\<open>^\<close>, \<^verbatim>\<open>$\<close> and \<^verbatim>\<open>\b\<close>. A pattern is
  a list of such items. The dot matches every character but the line feed; a class is
  given by its characters.
\<close>

datatype atom = AnyChar | Class string | Space

datatype item = Lit string | One atom | Star atom | Bol | Eol | WordBoundary

type_synonym regex = "item list"

fun atom_ok :: "atom \<Rightarrow> char \<Rightarrow> bool" where
  "atom_ok AnyChar c = (c \<noteq> CHR 0x0A)"
| "atom_ok (Class cs) c = (c \<in> set cs)"
| "atom_ok Space c = is_space c"

text \<open>
  The matcher walks the text from a position, which is the character before it (if any)
  and the text that remains. An item maps a position to the positions after it, in the
  order in which a backtracking matcher tries them: the star is greedy, so the longest
  run comes first.
\<close>

type_synonym position = "char option \<times> string"

fun star_positions :: "atom \<Rightarrow> char option \<Rightarrow> string \<Rightarrow> position list" where
  "star_positions a p [] = [(p, [])]"
| "star_positions a p (c # cs) =
     (if atom_ok a c then star_positions a (Some c) cs @ [(p, c # cs)] else [(p, c # cs)])"

definition word_before :: "char option \<Rightarrow> bool" where
  "word_before p = (case p of None \<Rightarrow> False | Some c \<Rightarrow> is_word_char c)"

definition word_after :: "string \<Rightarrow> bool" where
  "word_after s = (case s of [] \<Rightarrow> False | c # cs \<Rightarrow> is_word_char c)"

fun step :: "item \<Rightarrow> position \<Rightarrow> position list" where
  "step (Lit l) (p, s) =
     (if prefix l s then [(if l = [] then p else Some (last l), drop (length l) s)] else [])"
| "step (One a) (p, s) =
     (case s of [] \<Rightarrow> [] | c # cs \<Rightarrow> if atom_ok a c then [(Some c, cs)] else [])"
| "step (Star a) (p, s) = star_positions a p s"
| "step Bol (p, s) = (if p = None then [(p, s)] else [])"
| "step Eol (p, s) = (if s = [] \<or> s = [CHR 0x0A] then [(p, s)] else [])"
| "step WordBoundary (p, s) = (if word_before p \<noteq> word_after s then [(p, s)] else [])"

fun run :: "regex \<Rightarrow> position \<Rightarrow> position list" where
  "run [] pos = [pos]"
| "run (i # r) pos = concat (map (run r) (step i pos))"

text \<open>
  A match at a position is the first way through the pattern; its value is the text
  matched. \<^verbatim>\<open>re.match\<close> tries the start of the string only, \<^verbatim>\<open>re.search\<close> every position
  from the left.
\<close>

definition match_at :: "regex \<Rightarrow> position \<Rightarrow> string option" where
  "match_at r pos =
     (case run r pos of
        [] \<Rightarrow> None
      | (p, rest) # others \<Rightarrow> Some (take (length (snd pos) - length rest) (snd pos)))"

definition re_match :: "regex \<Rightarrow> string \<Rightarrow> string option" where
  "re_match r s = match_at r (None, s)"

fun search_from :: "regex \<Rightarrow> char option \<Rightarrow> string \<Rightarrow> string option" where
  "search_from r p [] = match_at r (p, [])"
| "search_from r p (c # cs) =
     (case match_at r (p, c # cs) of
        Some m \<Rightarrow> Some m
      | None \<Rightarrow> search_from r (Some c) cs)"

definition re_search :: "regex \<Rightarrow> string \<Rightarrow> string option" where
  "re_search r s = search_from r None s"

subsection \<open>The extractor\<close>

text \<open>The list \<^verbatim>\<open>rating_patterns\<close>, in its order.\<close>

definition rating_patterns :: "regex list" where
  "rating_patterns =
     [[Lit ''how useful'', Star AnyChar, Lit ''rate'', Star AnyChar, One (Class ''12345'')],
      [Lit ''rate'', Star AnyChar, Lit ''useful'', Star AnyChar, One (Class ''12345'')],
      [Lit ''rate'', Star AnyChar, Lit ''session'', Star AnyChar, One (Class ''12345'')],
      [Lit ''rate'', Star AnyChar, Lit ''coaching'', Star AnyChar, One (Class ''12345'')],
      [Lit ''number'', Star AnyChar, One (Class ''12345''), Star AnyChar, Lit ''rate''],
      [Lit ''number'', Star AnyChar, One (Class ''12345''), Star AnyChar, Lit ''useful''],
      [One (Class ''12345''), Star AnyChar, Lit ''useful''],
      [One (Class ''12345''), Star AnyChar, Lit ''session''],
      [One (Class ''12345''), Star AnyChar, Lit ''coaching'']]"

text \<open>\<^verbatim>\<open>^\s*[1-5]\s*$\<close> and \<^verbatim>\<open>\b([1-5])\b\<close>; the group of the second is its whole match.\<close>

definition single_digit_pattern :: regex where
  "single_digit_pattern = [Bol, Star Space, One (Class ''12345''), Star Space, Eol]"

definition standalone_digit_pattern :: regex where
  "standalone_digit_pattern = [WordBoundary, One (Class ''12345''), WordBoundary]"

definition written_numbers :: "(string \<times> int) list" where
  "written_numbers = [(''one'', 1), (''two'', 2), (''three'', 3), (''four'', 4), (''five'', 5)]"

text \<open>
  \<^verbatim>\<open>float(s)\<close> and \<^verbatim>\<open>int(s)\<close> on a string, with the result as a Python number. The
  extractor passes them a single decimal digit, and on a string of decimal digits they
  give the number written. The model answers \<^verbatim>\<open>ValueError\<close> on every other string; the
  extractor never reaches that answer (it never returns an exception, see below).
\<close>

definition py_float :: "string \<Rightarrow> py_error + pynum" where
  "py_float s =
     (if isdecimal s then Inr (PyFloat (of_int (int_of_digits s))) else Inl ValueError)"

definition py_int :: "string \<Rightarrow> py_error + pynum" where
  "py_int s = (case int_of_str s of Inl e \<Rightarrow> Inl e | Inr n \<Rightarrow> Inr (PyInt n))"

text \<open>
  The first loop of \<^verbatim>\<open>extract_session_rating\<close>, over the reversed messages: is there an
  assistant message that one of the patterns finds?
\<close>

definition is_rating_question :: "string \<Rightarrow> bool" where
  "is_rating_question c = list_ex (\<lambda>pattern. re_search pattern c \<noteq> None) rating_patterns"

fun question_loop :: "message list \<Rightarrow> bool" where
  "question_loop [] = False"
| "question_loop (m # ms) =
     (if has_role m ''assistant''
      then (if is_rating_question (lower (content_of m)) then True else question_loop ms)
      else question_loop ms)"

text \<open>
  The second loop, over the reversed messages. The two scripts differ in the conversions
  only: \<^verbatim>\<open>float\<close> in version_comparison_simple.py, \<^verbatim>\<open>int\<close> in
  comprehensive_rating_analysis.py; the loop takes them as arguments.
\<close>

fun response_loop ::
  "(string \<Rightarrow> py_error + pynum) \<Rightarrow> (int \<Rightarrow> pynum) \<Rightarrow> message list \<Rightarrow> py_error + pynum option" where
  "response_loop of_str of_num [] = Inr None"
| "response_loop of_str of_num (m # ms) =
     (if has_role m ''user'' then
        let c = strip (content_of m) in
        if re_match single_digit_pattern c \<noteq> None then
          (case of_str (strip c) of Inl e \<Rightarrow> Inl e | Inr v \<Rightarrow> Inr (Some v))
        else
          let content_lower = lower c in
          case map_of written_numbers content_lower of
            Some n \<Rightarrow> Inr (Some (of_num n))
          | None \<Rightarrow>
              (case re_search standalone_digit_pattern c of
                 Some g \<Rightarrow>
                   if length c < 100
                   then (case of_str g of Inl e \<Rightarrow> Inl e | Inr v \<Rightarrow> Inr (Some v))
                   else response_loop of_str of_num ms
               | None \<Rightarrow> response_loop of_str of_num ms)
      else response_loop of_str of_num ms)"

definition extract_session_rating :: "session \<Rightarrow> message list \<Rightarrow> py_error + pynum option" where
  "extract_session_rating s messages =
     (if messages = [] then Inr None
      else if \<not> question_loop (rev messages) then Inr None
      else response_loop py_float (\<lambda>n. PyFloat (of_int n)) (rev messages))"

definition extract_rating_from_session :: "session \<Rightarrow> message list \<Rightarrow> py_error + pynum option" where
  "extract_rating_from_session s messages =
     (if messages = [] then Inr None
      else if \<not> question_loop (rev messages) then Inr None
      else response_loop py_int PyInt (rev messages))"

subsection \<open>The extractor as the specification words it\<close>

text \<open>
  The text of a reply is its content without surrounding whitespace. A reply is a single
  digit when that text is one of the characters 1 to 5; a written number when its
  lower-cased text is one of the words one to five; and it contains a standalone digit
  when one of the characters 1 to 5 occurs in it with no word character directly before
  or after. \<open>first_standalone_digit\<close> finds the leftmost such digit.
\<close>

definition reply_text :: "message \<Rightarrow> string" where
  "reply_text m = strip (content_of m)"

definition single_digit_reply :: "string \<Rightarrow> bool" where
  "single_digit_reply c \<longleftrightarrow> (\<exists>d \<in> set ''12345''. c = [d])"

definition written_number_reply :: "string \<Rightarrow> bool" where
  "written_number_reply c \<longleftrightarrow> lower c \<in> set [''one'', ''two'', ''three'', ''four'', ''five'']"

definition has_standalone_digit :: "string \<Rightarrow> bool" where
  "has_standalone_digit c \<longleftrightarrow>
     (\<exists>u d v. c = u @ d # v \<and> d \<in> set ''12345'' \<and>
        (u = [] \<or> \<not> is_word_char (last u)) \<and> (v = [] \<or> \<not> is_word_char (hd v)))"

fun first_standalone_digit :: "char option \<Rightarrow> string \<Rightarrow> char option" where
  "first_standalone_digit p [] = None"
| "first_standalone_digit p (c # cs) =
     (if c \<in> set ''12345'' \<and> \<not> word_before p \<and> \<not> word_after cs then Some c
      else first_standalone_digit (Some c) cs)"

definition qualifying_reply :: "string \<Rightarrow> bool" where
  "qualifying_reply c \<longleftrightarrow>
     single_digit_reply c \<or> written_number_reply c \<or> (length c < 100 \<and> has_standalone_digit c)"

definition reply_rating :: "string \<Rightarrow> int" where
  "reply_rating c =
     (if single_digit_reply c then digit_value (hd c)
      else case map_of written_numbers (lower c) of
             Some n \<Rightarrow> n
           | None \<Rightarrow> (case first_standalone_digit None c of
                         Some d \<Rightarrow> digit_value d
                       | None \<Rightarrow> 0))"

definition asks_for_rating :: "message list \<Rightarrow> bool" where
  "asks_for_rating messages \<longleftrightarrow>
     (\<exists>m \<in> set messages. has_role m ''assistant'' \<and> is_rating_question (lower (content_of m)))"

definition first_rating_reply :: "message list \<Rightarrow> message option" where
  "first_rating_reply messages =
     find (\<lambda>m. qualifying_reply (reply_text m))
       (filter (\<lambda>m. has_role m ''user'') (rev messages))"

text \<open>A sample conversation used to run the extractor.\<close>

definition sample_rated_messages :: "message list" where
  "sample_rated_messages =
     [assistant_msg ''Welcome back!'',
      user_msg ''hello 7'',
      assistant_msg ''How useful was this? Please rate the session from 1 to 5.'',
      user_msg ''I would say 4, thanks'',
      user_msg ''  bye  '']"

section \<open>Verified properties\<close>

subsection \<open>Split sessions\<close>

lemma no_user_message_iff: "no_user_message ms \<longleftrightarrow> user_message_count ms = 0"
  by (induction ms) (auto simp: user_message_count_def)

text \<open>
  Claim C1, as stated: every function named \<^verbatim>\<open>is_split_session\<close> answers true exactly for
  a message list with no user-role message. The function of
  gs_score_analysis/analyze_gs_scores_refrigerator.py does not: a session with one user
  message is split for it.
\<close>

theorem C1_gs_split_counterexample:
  "is_split_session_gs bare_session (Some [user_msg ''hello'']) \<and>
   user_message_count [user_msg ''hello''] \<noteq> 0"
  by (simp add: is_split_session_gs_def user_message_count_def has_role_def user_msg_def)

text \<open>
  Claim C1, amended: given a message list, \<^verbatim>\<open>is_split_session\<close> of
  version_comparison_simple.py and of investigate_spike.py is true exactly when the list
  holds no user-role message; \<^verbatim>\<open>is_split_session\<close> of
  gs_score_analysis/analyze_gs_scores_refrigerator.py is true exactly when the list holds
  fewer than three user-role messages.
\<close>

theorem C1_split_session:
  "(is_split_session s (Some ms) \<longleftrightarrow> user_message_count ms = 0) \<and>
   (is_split_session_spike s (Some ms) \<longleftrightarrow> user_message_count ms = 0) \<and>
   (is_split_session_gs s (Some ms) \<longleftrightarrow> user_message_count ms < 3)"
  by (auto simp: is_split_session_def is_split_session_spike_def is_split_session_gs_def
      no_user_message_iff user_message_count_def)

theorem C1_split_session_witness:
  "is_split_session bare_session (Some [assistant_msg ''hello'']) \<and>
   \<not> is_split_session bare_session (Some [assistant_msg ''hello'', user_msg ''hi'']) \<and>
   \<not> is_split_session_spike bare_session (Some [assistant_msg ''hello'', user_msg ''hi'']) \<and>
   is_split_session_gs bare_session (Some [assistant_msg ''hello'', user_msg ''hi'']) \<and>
   \<not> is_split_session_gs bare_session (Some [user_msg ''a'', user_msg ''b'', user_msg ''c''])"
  using C1_split_session [of bare_session "[assistant_msg ''hello'']"]
    C1_split_session [of bare_session "[assistant_msg ''hello'', user_msg ''hi'']"]
    C1_split_session [of bare_session "[user_msg ''a'', user_msg ''b'', user_msg ''c'']"]
  by (simp add: user_message_count_def has_role_def user_msg_def assistant_msg_def)

subsection \<open>Test sessions\<close>

lemma endswith_iff: "endswith s p \<longleftrightarrow> (\<exists>u. s = u @ p)"
proof
  assume "endswith s p"
  then have "s = take (length s - length p) s @ p"
    by (metis append_take_drop_id endswith_def)
  then show "\<exists>u. s = u @ p" ..
next
  assume "\<exists>u. s = u @ p"
  then show "endswith s p" by (auto simp: endswith_def)
qed

text \<open>
  Claim C5: a session is a test session exactly when its participant identifier ends
  with \<^verbatim>\<open>@dimagi.com\<close>, the identifier of a session without a participant or without an
  identifier being the empty string; such a session is never a test session. The
  exclusion filter \<^verbatim>\<open>should_exclude_session\<close> drops every test session, and it drops a
  session exactly when the session is split or its identifier ends with
  \<^verbatim>\<open>@dimagi.com\<close>; a session without participant or identifier is dropped only when it
  is split. The same holds of the functions of investigate_spike.py.
\<close>

theorem C5_test_session:
  "(is_test_session s \<longleftrightarrow> (\<exists>u. participant_id s = u @ ''@dimagi.com'')) \<and>
   (participant_field s = None \<longrightarrow> \<not> is_test_session s) \<and>
   (\<forall>p. participant_field s = Some p \<and> identifier_field p = None \<longrightarrow> \<not> is_test_session s) \<and>
   (is_test_session_spike s \<longleftrightarrow> is_test_session s) \<and>
   (is_test_session s \<longrightarrow>
      should_exclude_session s messages \<and> should_exclude_session_spike s messages) \<and>
   (should_exclude_session s messages \<longleftrightarrow>
      is_split_session s messages \<or> (\<exists>u. participant_id s = u @ ''@dimagi.com'')) \<and>
   (should_exclude_session_spike s messages \<longleftrightarrow>
      is_split_session_spike s messages \<or> (\<exists>u. participant_id s = u @ ''@dimagi.com'')) \<and>
   (participant_field s = None \<or>
    (\<exists>p. participant_field s = Some p \<and> identifier_field p = None)
      \<longrightarrow> (should_exclude_session s messages \<longleftrightarrow> is_split_session s messages) \<and>
          (should_exclude_session_spike s messages \<longleftrightarrow> is_split_session_spike s messages))"
proof -
  have t: "is_test_session s \<longleftrightarrow> (\<exists>u. participant_id s = u @ ''@dimagi.com'')"
    by (simp add: is_test_session_def endswith_iff)
  have ts: "is_test_session_spike s \<longleftrightarrow> is_test_session s"
    by (simp add: is_test_session_spike_def is_test_session_def)
  have n1: "\<not> is_test_session s" if "participant_field s = None"
    using that by (simp add: is_test_session_def endswith_def participant_id_def)
  have n2: "\<not> is_test_session s"
    if "participant_field s = Some p \<and> identifier_field p = None" for p
    using that by (simp add: is_test_session_def endswith_def participant_id_def)
  have e: "should_exclude_session s messages \<longleftrightarrow> is_split_session s messages \<or> is_test_session s"
    by (simp add: should_exclude_session_def)
  have es: "should_exclude_session_spike s messages \<longleftrightarrow>
              is_split_session_spike s messages \<or> is_test_session s"
    by (simp add: should_exclude_session_spike_def ts)
  show ?thesis
    using n1 n2 unfolding e es ts by (auto simp: t)
qed

theorem C5_test_session_witness:
  "is_test_session (session_of_participant ''amy@dimagi.com'') \<and>
   \<not> is_test_session bare_session \<and>
   \<not> is_test_session (bare_session\<lparr>participant_field := Some \<lparr>identifier_field = None\<rparr>\<rparr>) \<and>
   should_exclude_session (session_of_participant ''amy@dimagi.com'') (Some [user_msg ''hi'']) \<and>
   should_exclude_session_spike (session_of_participant ''amy@dimagi.com'') (Some [user_msg ''hi'']) \<and>
   \<not> should_exclude_session (session_of_participant ''amy@example.org'') (Some [user_msg ''hi'']) \<and>
   \<not> should_exclude_session bare_session (Some [user_msg ''hi'']) \<and>
   should_exclude_session bare_session (Some [assistant_msg ''hi''])"
proof -
  have p1: "participant_id (session_of_participant ''amy@dimagi.com'') = ''amy'' @ ''@dimagi.com''"
    by (simp add: session_of_participant_def bare_session_def participant_id_def)
  have p2: "\<not> (\<exists>u. participant_id (session_of_participant ''amy@example.org'') = u @ ''@dimagi.com'')"
    unfolding endswith_iff [symmetric]
    by (simp add: session_of_participant_def bare_session_def participant_id_def endswith_def)
  have p3: "participant_field bare_session = None" by (simp add: bare_session_def)
  have s1: "\<not> is_split_session s (Some [user_msg ''hi''])" for s
    by (simp add: is_split_session_def has_role_def user_msg_def)
  have s2: "is_split_session bare_session (Some [assistant_msg ''hi''])"
    by (simp add: is_split_session_def has_role_def assistant_msg_def)
  have a: "is_test_session (session_of_participant ''amy@dimagi.com'') \<and>
           should_exclude_session (session_of_participant ''amy@dimagi.com'') (Some [user_msg ''hi'']) \<and>
           should_exclude_session_spike (session_of_participant ''amy@dimagi.com'')
             (Some [user_msg ''hi''])"
    using C5_test_session [of "session_of_participant ''amy@dimagi.com''" "Some [user_msg ''hi'']"] p1
    by blast
  have b: "\<not> is_test_session bare_session \<and>
           \<not> should_exclude_session bare_session (Some [user_msg ''hi''])"
    using C5_test_session [of bare_session "Some [user_msg ''hi'']"] p3 s1 by blast
  have c: "\<not> is_test_session (bare_session\<lparr>participant_field := Some \<lparr>identifier_field = None\<rparr>\<rparr>)"
  proof -
    have "participant_field (bare_session\<lparr>participant_field := Some \<lparr>identifier_field = None\<rparr>\<rparr>)
            = Some \<lparr>identifier_field = None\<rparr> \<and>
          identifier_field \<lparr>identifier_field = None\<rparr> = None"
      by simp
    with C5_test_session
      [of "bare_session\<lparr>participant_field := Some \<lparr>identifier_field = None\<rparr>\<rparr>" None]
    show ?thesis by blast
  qed
  have d: "\<not> should_exclude_session (session_of_participant ''amy@example.org'')
               (Some [user_msg ''hi''])"
    using C5_test_session [of "session_of_participant ''amy@example.org''" "Some [user_msg ''hi'']"]
      p2 s1 by blast
  have e: "should_exclude_session bare_session (Some [assistant_msg ''hi''])"
    using C5_test_session [of bare_session "Some [assistant_msg ''hi'']"] s2 by blast
  from a b c d e show ?thesis by blast
qed

subsection \<open>Version classification\<close>

lemma v_digits_form_decimal:
  "v_digits_form t \<longleftrightarrow> startswith t ''v'' \<and> isdecimal (drop 1 t)"
  by (cases t) (auto simp: v_digits_form_def startswith_def isdecimal_def is_decimal_char_def
      list_all_iff)

lemma isdecimal_isdigit: "isdecimal s \<Longrightarrow> isdigit s"
  by (auto simp: isdecimal_def isdigit_def is_digit_char_def list_all_iff)

lemma v_digits_form_test: "v_digits_form t \<Longrightarrow> version_tag_test t"
  by (simp add: v_digits_form_decimal version_tag_test_def isdecimal_isdigit)

lemma version_of_tags_find:
  "version_of_tags ts =
     (case find version_tag_test ts of None \<Rightarrow> Inr 0 | Some t \<Rightarrow> int_of_str (drop 1 t))"
  by (induction ts) (simp_all add: version_tag_test_def)

lemma get_version_falsy:
  "(if truthy messages then get_version_from_last_message messages else Inr 0)
     = get_version_from_last_message messages"
  by (simp add: get_version_from_last_message_def)

lemma matches_version_cases:
  "matches_version s cfg messages =
     (if experiment_id s \<notin> set (cfg_experiment_id cfg) then Inr False
      else case get_version_from_last_message messages of
             Inl e \<Rightarrow> Inl e
           | Inr v \<Rightarrow> Inr (case version_range cfg of
                             None \<Rightarrow> True
                           | Some r \<Rightarrow> in_version_range r v))"
  unfolding matches_version_def get_version_falsy
  by (auto simp: in_version_range_def split: sum.splits option.splits prod.splits)

lemma long_literal_raises: "max_str_digits < length ds \<Longrightarrow> int_of_str ds = Inl ValueError"
  by (simp add: int_of_str_def)

lemma superscript_two_raises: "int_of_str [CHR 0xB2] = Inl ValueError"
  by (simp add: int_of_str_def isdecimal_def is_decimal_char_def)

text \<open>
  Claim C3 says that \<^verbatim>\<open>matches_version\<close> returns true whenever the experiment id of the
  session is in the configured list and no range is configured, and that the version it
  reads is 0 when no tag has the form v followed by digits. The code reads the version
  before it looks at the range, and guards \<^verbatim>\<open>int(tag[1:])\<close> with \<^verbatim>\<open>str.isdigit\<close>, which
  also accepts superscript digits: for a matching session whose last message is tagged
  with v and a superscript two, and a configuration without range, the code raises
  \<^verbatim>\<open>ValueError\<close> and returns nothing.
\<close>

theorem C3_superscript_tag_raises:
  "matches_version (session_of_experiment ''e2b4855f-8550-47ff-87d2-d92018676ff3'')
     \<lparr>cfg_experiment_id = [''e2b4855f-8550-47ff-87d2-d92018676ff3''], version_range = None\<rparr>
     (Some [tagged_msg [[CHR ''v'', CHR 0xB2]]]) = Inl ValueError \<and>
   get_version_from_last_message (Some [tagged_msg [[CHR ''v'', CHR 0xB2]]]) = Inl ValueError"
proof -
  have t: "version_tag_test [CHR ''v'', CHR 0xB2]"
    by (simp add: version_tag_test_def startswith_def isdigit_def is_digit_char_def)
  have g: "get_version_from_last_message (Some [tagged_msg [[CHR ''v'', CHR 0xB2]]])
             = Inl ValueError"
    using t
    by (simp add: get_version_from_last_message_def truthy_def list_or_empty_def tagged_msg_def
        message_tags_def version_of_tags_find superscript_two_raises)
  have e: "experiment_id (session_of_experiment ''e2b4855f-8550-47ff-87d2-d92018676ff3'')
             = ''e2b4855f-8550-47ff-87d2-d92018676ff3''"
    by (simp add: session_of_experiment_def experiment_id_def)
  have m: "matches_version (session_of_experiment ''e2b4855f-8550-47ff-87d2-d92018676ff3'')
     \<lparr>cfg_experiment_id = [''e2b4855f-8550-47ff-87d2-d92018676ff3''], version_range = None\<rparr>
     (Some [tagged_msg [[CHR ''v'', CHR 0xB2]]]) = Inl ValueError"
    by (simp add: matches_version_cases e g)
  from m g show ?thesis by simp
qed

lemma superscript_tag_not_decimal: "\<not> v_digits_form [CHR ''v'', CHR 0xB2]"
  by (simp add: v_digits_form_def)

subsection \<open>The version buckets of the shared experiment\<close>








subsection \<open>Coaching method\<close>

lemma method_of_tag_names:
  "method_of_tag t = Some r \<Longrightarrow> r \<in> set method_names \<and> r \<noteq> ''Unknown''"
  by (auto simp: method_of_tag_def method_names_def split: if_splits)

lemma method_of_content_names:
  "method_of_content c = Some r \<Longrightarrow> r \<in> set method_names \<and> r \<noteq> ''Unknown''"
  by (auto simp: method_of_content_def method_names_def split: if_splits)

lemma method_of_tag_None: "method_of_tag t = None \<longleftrightarrow> \<not> is_method_tag t"
  by (simp add: method_of_tag_def is_method_tag_def)

lemma method_of_content_None: "method_of_content c = None \<longleftrightarrow> \<not> has_keyword c"
  by (simp add: method_of_content_def has_keyword_def any_keyword_def list_ex_iff)

lemma tags_loop_find: "tags_loop ts = Option.bind (find is_method_tag ts) method_of_tag"
proof (induction ts)
  case Nil
  show ?case by simp
next
  case (Cons t ts)
  show ?case
  proof (cases "method_of_tag t")
    case None
    moreover from None have "\<not> is_method_tag t" by (simp add: method_of_tag_None)
    ultimately show ?thesis using Cons by simp
  next
    case (Some r)
    moreover from Some have "is_method_tag t" using method_of_tag_None [of t] by simp
    ultimately show ?thesis by simp
  qed
qed

lemma tags_loop_None: "tags_loop ts = None \<longleftrightarrow> find is_method_tag ts = None"
proof (cases "find is_method_tag ts")
  case None
  then show ?thesis by (simp add: tags_loop_find)
next
  case (Some t)
  then have "is_method_tag t" by (auto simp: find_Some_iff)
  then have "method_of_tag t \<noteq> None" by (simp add: method_of_tag_None)
  with Some show ?thesis by (simp add: tags_loop_find)
qed

lemma find_append:
  "find P (xs @ ys) = (case find P xs of None \<Rightarrow> find P ys | Some x \<Rightarrow> Some x)"
  by (induction xs) simp_all

lemma message_tags_loop_find:
  "message_tags_loop ms = Option.bind (find is_method_tag (concat (map message_tags ms))) method_of_tag"
proof (induction ms)
  case Nil
  show ?case by simp
next
  case (Cons m ms)
  show ?case
  proof (cases "tags_loop (message_tags m)")
    case None
    then have "find is_method_tag (message_tags m) = None" by (simp add: tags_loop_None)
    then have "find is_method_tag (message_tags m @ concat (map message_tags ms))
                 = find is_method_tag (concat (map message_tags ms))"
      by (simp add: find_append)
    with None Cons show ?thesis by simp
  next
    case (Some r)
    then obtain t where t: "find is_method_tag (message_tags m) = Some t"
      by (cases "find is_method_tag (message_tags m)") (simp_all add: tags_loop_find)
    then have "find is_method_tag (message_tags m @ concat (map message_tags ms)) = Some t"
      by (simp add: find_append)
    with Some t show ?thesis by (simp add: tags_loop_find)
  qed
qed

lemma content_loop_find:
  "content_loop ms =
     Option.bind (find has_keyword (map (\<lambda>m. lower (content_of m))
                    (filter (\<lambda>m. has_role m ''assistant'') ms))) method_of_content"
proof (induction ms)
  case Nil
  show ?case by simp
next
  case (Cons m ms)
  show ?case
  proof (cases "has_role m ''assistant''")
    case False
    with Cons show ?thesis by simp
  next
    case True
    show ?thesis
    proof (cases "method_of_content (lower (content_of m))")
      case None
      moreover from None have "\<not> has_keyword (lower (content_of m))"
        by (simp add: method_of_content_None)
      ultimately show ?thesis using True Cons by simp
    next
      case (Some r)
      moreover from Some have "has_keyword (lower (content_of m))"
        using method_of_content_None [of "lower (content_of m)"] by simp
      ultimately show ?thesis using True by simp
    qed
  qed
qed


lemma tier_names: "Option.bind (find P xs) f = Some r \<Longrightarrow> \<exists>x. f x = Some r"
  by (cases "find P xs") auto

text \<open>
  Claim C4: \<^verbatim>\<open>detect_coaching_method\<close> always returns one of the six names. A coaching-method
  tag of the session decides, whatever the messages are; without one, the first
  coaching-method tag of the messages decides; without any tag, the first assistant
  message whose text holds a keyword decides; and the answer is \<^verbatim>\<open>Unknown\<close> exactly when
  all three tiers find nothing.
\<close>

theorem C4_detect_coaching_method:
  "detect_coaching_method s messages \<in> set method_names \<and>
   (\<forall>r. session_tier s = Some r \<longrightarrow> detect_coaching_method s messages = r) \<and>
   (\<forall>r. session_tier s = None \<and> message_tier messages = Some r
      \<longrightarrow> detect_coaching_method s messages = r) \<and>
   (\<forall>r. session_tier s = None \<and> message_tier messages = None \<and> keyword_tier messages = Some r
      \<longrightarrow> detect_coaching_method s messages = r) \<and>
   (detect_coaching_method s messages = ''Unknown'' \<longleftrightarrow>
      session_tier s = None \<and> message_tier messages = None \<and> keyword_tier messages = None)"
proof -
  have t2: "(if truthy messages then message_tags_loop (list_or_empty messages) else None)
              = message_tier messages"
    by (cases messages)
      (auto simp: truthy_def list_or_empty_def message_tier_def message_tags_loop_find)
  have t3: "(if truthy messages then content_loop (list_or_empty messages) else None)
              = keyword_tier messages"
    by (cases messages)
      (auto simp: truthy_def list_or_empty_def keyword_tier_def content_loop_find)
  have d: "detect_coaching_method s messages =
             (case session_tier s of
                Some r \<Rightarrow> r
              | None \<Rightarrow> (case message_tier messages of
                           Some r \<Rightarrow> r
                         | None \<Rightarrow> (case keyword_tier messages of
                                      Some r \<Rightarrow> r
                                    | None \<Rightarrow> ''Unknown'')))"
    unfolding detect_coaching_method_def t2 t3 by (simp add: session_tier_def tags_loop_find)
  have n1: "r \<in> set method_names \<and> r \<noteq> ''Unknown''" if "session_tier s = Some r" for r
    using that tier_names [of is_method_tag "session_tags s" method_of_tag r] method_of_tag_names
    unfolding session_tier_def by blast
  have n2: "r \<in> set method_names \<and> r \<noteq> ''Unknown''" if "message_tier messages = Some r" for r
    using that tier_names [of is_method_tag _ method_of_tag r] method_of_tag_names
    unfolding message_tier_def by blast
  have n3: "r \<in> set method_names \<and> r \<noteq> ''Unknown''" if "keyword_tier messages = Some r" for r
    using that tier_names [of has_keyword _ method_of_content r] method_of_content_names
    unfolding keyword_tier_def by blast
  have u: "''Unknown'' \<in> set method_names" by (simp add: method_names_def)
  show ?thesis
    unfolding d using n1 n2 n3 u by (auto split: option.splits)
qed

theorem C4_detect_coaching_method_witness:
  "detect_coaching_method (bare_session\<lparr>tags_field := Some [''v2'', ''coach_method_microlearning_vaccine'']\<rparr>)
      (Some [tagged_msg [''coach_method_scenarios'']]) = ''Microlearning vaccines'' \<and>
   detect_coaching_method bare_session
      (Some [assistant_msg ''a quiz'', tagged_msg [''v1'', ''coach_method_visit_debrief'']])
      = ''Visit check in'' \<and>
   detect_coaching_method bare_session
      (Some [user_msg ''quiz'', assistant_msg ''Let us do a RolePlay'', assistant_msg ''a quiz''])
      = ''Scenario'' \<and>
   detect_coaching_method bare_session (Some [user_msg ''quiz'']) = ''Unknown''"
proof -
  let ?s1 = "bare_session\<lparr>tags_field := Some [''v2'', ''coach_method_microlearning_vaccine'']\<rparr>"
  let ?m1 = "Some [tagged_msg [''coach_method_scenarios'']]"
  let ?m2 = "Some [assistant_msg ''a quiz'', tagged_msg [''v1'', ''coach_method_visit_debrief'']]"
  let ?m3 = "Some [user_msg ''quiz'', assistant_msg ''Let us do a RolePlay'', assistant_msg ''a quiz'']"
  let ?m4 = "Some [user_msg ''quiz'']"
  have s1: "session_tier ?s1 = Some ''Microlearning vaccines''" by code_simp
  have s0: "session_tier bare_session = None" by code_simp
  have t2: "message_tier ?m2 = Some ''Visit check in''" by code_simp
  have t3: "message_tier ?m3 = None" by code_simp
  have k3: "keyword_tier ?m3 = Some ''Scenario''" by code_simp
  have t4: "message_tier ?m4 = None" by code_simp
  have k4: "keyword_tier ?m4 = None" by code_simp
  have a: "detect_coaching_method ?s1 ?m1 = ''Microlearning vaccines''"
    using C4_detect_coaching_method [of ?s1 ?m1] s1 by blast
  have b: "detect_coaching_method bare_session ?m2 = ''Visit check in''"
    using C4_detect_coaching_method [of bare_session ?m2] s0 t2 by blast
  have c: "detect_coaching_method bare_session ?m3 = ''Scenario''"
    using C4_detect_coaching_method [of bare_session ?m3] s0 t3 k3 by blast
  have d: "detect_coaching_method bare_session ?m4 = ''Unknown''"
    using C4_detect_coaching_method [of bare_session ?m4] s0 t4 k4 by blast
  from a b c d show ?thesis by blast
qed

subsection \<open>Medians\<close>

lemma py_index_in_range: "i < length xs \<Longrightarrow> py_index xs (int i) = Inr (xs ! i)"
  by (simp add: py_index_def)

lemma middle_indices:
  assumes "xs \<noteq> []"
  shows "py_index xs (int (length xs) div 2) = Inr (xs ! (length xs div 2))"
    and "even (length xs) \<Longrightarrow>
           py_index xs (int (length xs) div 2 - 1) = Inr (xs ! (length xs div 2 - 1))"
proof -
  have pos: "0 < length xs" using assms by simp
  have "length xs div 2 < length xs" using pos by presburger
  then have "py_index xs (int (length xs div 2)) = Inr (xs ! (length xs div 2))"
    by (rule py_index_in_range)
  then show "py_index xs (int (length xs) div 2) = Inr (xs ! (length xs div 2))"
    by (simp add: zdiv_int)
  assume "even (length xs)"
  with pos have two: "2 \<le> length xs" by presburger
  have "length xs div 2 - 1 < length xs" using pos by presburger
  then have "py_index xs (int (length xs div 2 - 1)) = Inr (xs ! (length xs div 2 - 1))"
    by (rule py_index_in_range)
  moreover have "int (length xs) div 2 - 1 = int (length xs div 2 - 1)"
    using two by (simp add: zdiv_int)
  ultimately show "py_index xs (int (length xs) div 2 - 1) = Inr (xs ! (length xs div 2 - 1))"
    by simp
qed

lemma median_of_word_counts_value:
  assumes "xs \<noteq> []"
  shows "median_of_word_counts xs =
           Inr (if even (length xs)
                then PyFloat (of_int (sort xs ! (length xs div 2 - 1) + sort xs ! (length xs div 2)) / 2)
                else PyInt (sort xs ! (length xs div 2)))"
proof -
  have ne: "sort xs \<noteq> []" using assms by (metis length_sort length_0_conv)
  note mid = middle_indices [OF ne, unfolded length_sort]
  show ?thesis
  proof (cases "even (length xs)")
    case True
    then have m: "int (length xs) mod 2 = 0" by presburger
    show ?thesis
      unfolding median_of_word_counts_def Let_def length_sort
      by (simp only: assms m mid(1) mid(2) [OF True] True if_True sum.case simp_thms)
  next
    case False
    then have m: "int (length xs) mod 2 \<noteq> 0" by presburger
    show ?thesis
      unfolding median_of_word_counts_def Let_def length_sort
      by (simp only: assms m mid(1) False if_True if_False sum.case simp_thms)
  qed
qed

lemma statistics_median_value:
  assumes "xs \<noteq> []"
  shows "statistics_median xs =
           Inr (if even (length xs)
                then PyFloat (of_int (sort xs ! (length xs div 2 - 1) + sort xs ! (length xs div 2)) / 2)
                else PyInt (sort xs ! (length xs div 2)))"
proof -
  have ne: "sort xs \<noteq> []" using assms by (metis length_sort length_0_conv)
  have n0: "int (length xs) \<noteq> 0" using assms by simp
  note mid = middle_indices [OF ne, unfolded length_sort]
  show ?thesis
  proof (cases "even (length xs)")
    case True
    then have m: "int (length xs) mod 2 \<noteq> 1" by presburger
    show ?thesis
      unfolding statistics_median_def Let_def length_sort
      by (simp only: n0 m mid(1) mid(2) [OF True] True if_True if_False sum.case simp_thms)
  next
    case False
    then have m: "int (length xs) mod 2 = 1" by presburger
    show ?thesis
      unfolding statistics_median_def Let_def length_sort
      by (simp only: n0 m mid(1) False if_True if_False sum.case simp_thms)
  qed
qed

text \<open>
  Claim C7: on a non-empty list of counts the median computed by hand in
  \<^verbatim>\<open>calculate_median_words_by_method_and_version\<close> is a value, and the same value as
  \<^verbatim>\<open>statistics.median\<close> returns in \<^verbatim>\<open>calculate_median_human_words\<close>: the middle element
  of the sorted list for an odd length, the mean of the two middle elements for an even
  length. On the empty list both code paths give \<^verbatim>\<open>0.0\<close>.
\<close>

theorem C7_median_paths_agree:
  "(xs \<noteq> [] \<longrightarrow>
      median_of_word_counts xs = statistics_median xs \<and>
      median_of_word_counts xs = median_human_words_of_counts xs \<and>
      median_of_word_counts xs =
        Inr (if even (length xs)
             then PyFloat (of_int (sort xs ! (length xs div 2 - 1) + sort xs ! (length xs div 2)) / 2)
             else PyInt (sort xs ! (length xs div 2)))) \<and>
   median_of_word_counts [] = Inr (PyFloat 0) \<and>
   median_human_words_of_counts [] = Inr (PyFloat 0)"
proof (intro conjI impI)
  assume ne: "xs \<noteq> []"
  show "median_of_word_counts xs = statistics_median xs"
    by (simp only: median_of_word_counts_value [OF ne] statistics_median_value [OF ne])
  show "median_of_word_counts xs = median_human_words_of_counts xs"
    using ne
    by (simp only: median_human_words_of_counts_def if_False
        median_of_word_counts_value [OF ne] statistics_median_value [OF ne])
  show "median_of_word_counts xs =
        Inr (if even (length xs)
             then PyFloat (of_int (sort xs ! (length xs div 2 - 1) + sort xs ! (length xs div 2)) / 2)
             else PyInt (sort xs ! (length xs div 2)))"
    using ne by (rule median_of_word_counts_value)
next
  show "median_of_word_counts [] = Inr (PyFloat 0)"
    by (simp add: median_of_word_counts_def)
  show "median_human_words_of_counts [] = Inr (PyFloat 0)"
    by (simp add: median_human_words_of_counts_def)
qed

theorem C7_median_paths_agree_witness:
  "median_of_word_counts [7, 1, 4] = Inr (PyInt 4) \<and>
   statistics_median [7, 1, 4] = Inr (PyInt 4) \<and>
   median_human_words_of_counts [7, 1, 4] = Inr (PyInt 4) \<and>
   median_of_word_counts [7, 1, 4, 2] = Inr (PyFloat 3) \<and>
   statistics_median [7, 1, 4, 2] = Inr (PyFloat 3) \<and>
   median_human_words_of_counts [7, 1, 4, 2] = Inr (PyFloat 3)"
proof -
  let ?mid = "\<lambda>xs :: int list.
      if even (length xs)
      then PyFloat (of_int (sort xs ! (length xs div 2 - 1) + sort xs ! (length xs div 2)) / 2)
      else PyInt (sort xs ! (length xs div 2))"
  have a: "?mid [7, 1, 4] = PyInt 4" by simp
  have b: "?mid [7, 1, 4, 2] = PyFloat 3" by simp
  have "[7, 1, 4 :: int] \<noteq> []" by simp
  with C7_median_paths_agree [of "[7, 1, 4]"]
  have odd_case: "median_of_word_counts [7, 1, 4] = statistics_median [7, 1, 4] \<and>
      median_of_word_counts [7, 1, 4] = median_human_words_of_counts [7, 1, 4] \<and>
      median_of_word_counts [7, 1, 4] = Inr (?mid [7, 1, 4])"
    by blast
  have "[7, 1, 4, 2 :: int] \<noteq> []" by simp
  with C7_median_paths_agree [of "[7, 1, 4, 2]"]
  have even_case: "median_of_word_counts [7, 1, 4, 2] = statistics_median [7, 1, 4, 2] \<and>
      median_of_word_counts [7, 1, 4, 2] = median_human_words_of_counts [7, 1, 4, 2] \<and>
      median_of_word_counts [7, 1, 4, 2] = Inr (?mid [7, 1, 4, 2])"
    by blast
  from odd_case even_case show ?thesis unfolding a b by metis
qed

subsection \<open>Refrigerator-example rates\<close>

lemma percent_bounds:
  assumes "a \<le> b" and "0 < b"
  shows "0 \<le> (of_nat a / of_nat b :: rat) * 100 \<and> (of_nat a / of_nat b :: rat) * 100 \<le> 100"
proof -
  have "(of_nat a :: rat) \<le> of_nat b" using assms(1) by simp
  moreover have "(0 :: rat) < of_nat b" using assms(2) by simp
  ultimately have le: "(of_nat a / of_nat b :: rat) \<le> 1" by (simp add: divide_le_eq)
  have ge: "(0 :: rat) \<le> of_nat a / of_nat b" by simp
  have "(of_nat a / of_nat b :: rat) * 100 \<le> 1 * 100"
    using le by (rule mult_right_mono) simp
  moreover have "0 \<le> (of_nat a / of_nat b :: rat) * 100"
    using ge by (rule mult_nonneg_nonneg) simp
  ultimately show ?thesis by simp
qed

lemma method_rate_value:
  "\<exists>rate. method_rate session_list = Inr rate \<and> 0 \<le> rate \<and> rate \<le> 100 \<and>
     (filter (\<lambda>(s, messages). has_refrigerator_annotation s (Some messages)) session_list = []
        \<longrightarrow> rate = 0)"
proof -
  let ?ann = "filter (\<lambda>(s, messages). has_refrigerator_annotation s (Some messages)) session_list"
  let ?cnt = "length (filter (\<lambda>(s, messages). has_refrigerator_example_tag s (Some messages)) ?ann)"
  show ?thesis
  proof (cases "?ann = []")
    case True
    then show ?thesis by (simp add: method_rate_def)
  next
    case False
    then have pos: "0 < length ?ann" by simp
    have le: "?cnt \<le> length ?ann" by (rule length_filter_le)
    have "method_rate session_list = Inr (of_nat ?cnt / of_nat (length ?ann) * 100)"
      using False pos unfolding method_rate_def Let_def py_truediv_def by simp
    with percent_bounds [OF le pos] False show ?thesis by simp
  qed
qed

lemma method_rates_loop_bounds:
  "\<exists>rates. method_rates_loop groups = Inr rates \<and> map fst rates = map fst groups \<and>
     (\<forall>(method, rate) \<in> set rates. 0 \<le> rate \<and> rate \<le> 100)"
proof (induction groups)
  case Nil
  show ?case by simp
next
  case (Cons g groups)
  obtain name session_list where g: "g = (name, session_list)" by (cases g)
  obtain rate where r: "method_rate session_list = Inr rate" "0 \<le> rate" "rate \<le> 100"
    using method_rate_value [of session_list] by blast
  from Cons obtain rates where rs: "method_rates_loop groups = Inr rates"
    "map fst rates = map fst groups" "\<forall>(method, rate) \<in> set rates. 0 \<le> rate \<and> rate \<le> 100"
    by blast
  have "method_rates_loop (g # groups) = Inr ((name, rate) # rates)"
    by (simp add: g r(1) rs(1))
  with r rs g show ?case by simp
qed

lemma default_stats_ok: "stats_ok default_stats"
  by (simp add: stats_ok_def default_stats_def)

lemma count_session_ok:
  "stats_ok st \<Longrightarrow> stats_ok (count_session include_split_sessions s sid messages st)"
  by (simp add: stats_ok_def count_session_def Let_def)

lemma update_stats_ok:
  assumes "\<forall>(k, st) \<in> set stats. stats_ok st" and "\<And>st. stats_ok st \<Longrightarrow> stats_ok (f st)"
  shows "\<forall>(k, st) \<in> set (update_stats pid f stats). stats_ok st"
  using assms(1)
proof (induction stats)
  case Nil
  show ?case using assms(2) [OF default_stats_ok] by simp
next
  case (Cons e stats)
  obtain k st where e: "e = (k, st)" by (cases e)
  with Cons.prems have st: "stats_ok st" and rest: "\<forall>(k, st) \<in> set stats. stats_ok st"
    by simp_all
  show ?case
  proof (cases "pid = k")
    case True
    with e st rest assms(2) show ?thesis by simp
  next
    case False
    with e st Cons.IH [OF rest] show ?thesis by simp
  qed
qed

lemma count_sessions_ok:
  "\<forall>(k, st) \<in> set stats. stats_ok st \<Longrightarrow>
   \<forall>(k, st) \<in> set (count_sessions include_split_sessions messages_data stats sessions). stats_ok st"
proof (induction sessions arbitrary: stats)
  case Nil
  then show ?case by simp
next
  case (Cons s sessions)
  let ?pid = "participant_id s"
  let ?sid = "case session_id s of None \<Rightarrow> [] | Some i \<Rightarrow> i"
  show ?case
  proof (cases "?pid = [] \<or> endswith ?pid ''@dimagi.com'' \<or> ?sid = []")
    case True
    then have "count_sessions include_split_sessions messages_data stats (s # sessions)
                 = count_sessions include_split_sessions messages_data stats sessions"
      by (auto simp: Let_def)
    with Cons show ?thesis by simp
  next
    case False
    let ?stats' = "update_stats ?pid
        (count_session include_split_sessions s ?sid (messages_of messages_data (Some ?sid))) stats"
    from False
    have eq: "count_sessions include_split_sessions messages_data stats (s # sessions)
                 = count_sessions include_split_sessions messages_data ?stats' sessions"
      by (simp add: Let_def)
    have "\<forall>(k, st) \<in> set ?stats'. stats_ok st"
      using Cons.prems by (rule update_stats_ok) (rule count_session_ok)
    then show ?thesis unfolding eq by (rule Cons.IH)
  qed
qed

lemma store_rates_ok:
  assumes "stats_ok st"
  shows "\<exists>st'. store_rates st = Inr st' \<and> rates_stored st'"
proof -
  let ?t = "total_sessions st"
  let ?ts = "total_sessions st + split_sessions st"
  let ?r = "if ?t > 0 then of_nat (refrigerator_sessions st) / of_nat ?t * 100 else (0::rat)"
  let ?rs = "if ?ts > 0
             then of_nat (refrigerator_sessions st + refrigerator_split_sessions st) / of_nat ?ts * 100
             else (0::rat)"
  have le1: "refrigerator_sessions st \<le> ?t"
    and le2: "refrigerator_sessions st + refrigerator_split_sessions st \<le> ?ts"
    using assms by (simp_all add: stats_ok_def)
  have eq: "store_rates st =
              Inr (st\<lparr>refrigerator_rate := Some ?r, refrigerator_rate_with_split := Some ?rs\<rparr>)"
    unfolding store_rates_def Let_def py_truediv_def by auto
  have b1: "0 \<le> ?r \<and> ?r \<le> 100" using percent_bounds [OF le1] by simp
  have b2: "0 \<le> ?rs \<and> ?rs \<le> 100" using percent_bounds [OF le2] by simp
  have "rates_stored (st\<lparr>refrigerator_rate := Some ?r, refrigerator_rate_with_split := Some ?rs\<rparr>)"
    unfolding rates_stored_def using b1 b2 by simp
  with eq show ?thesis by blast
qed

lemma store_rates_loop_ok:
  "\<forall>(k, st) \<in> set stats. stats_ok st \<Longrightarrow>
   \<exists>stats'. store_rates_loop stats = Inr stats' \<and> map fst stats' = map fst stats \<and>
     (\<forall>(k, st) \<in> set stats'. rates_stored st)"
proof (induction stats)
  case Nil
  show ?case by simp
next
  case (Cons e stats)
  obtain k st where e: "e = (k, st)" by (cases e)
  with Cons.prems have st: "stats_ok st" and rest: "\<forall>(k, st) \<in> set stats. stats_ok st"
    by simp_all
  obtain st' where s: "store_rates st = Inr st'" "rates_stored st'"
    using store_rates_ok [OF st] by blast
  obtain stats' where r: "store_rates_loop stats = Inr stats'" "map fst stats' = map fst stats"
    "\<forall>(k, st) \<in> set stats'. rates_stored st"
    using Cons.IH [OF rest] by blast
  have "store_rates_loop (e # stats) = Inr ((k, st') # stats')"
    by (simp add: e s(1) r(1))
  with e s r show ?case by simp
qed

text \<open>
  Claim C9: both aggregators return without raising; every rate they compute lies
  between 0 and 100; and where the divisor is zero (no annotated session in a method
  group, no counted session for a participant) the rate is 0.
\<close>

theorem C9_rates_guarded:
  "(\<exists>rates. calculate_refrigerator_rate_by_method sessions messages_data = Inr rates \<and>
      (\<forall>(method, rate) \<in> set rates. 0 \<le> rate \<and> rate \<le> 100)) \<and>
   (\<exists>rate. method_rate session_list = Inr rate \<and> 0 \<le> rate \<and> rate \<le> 100 \<and>
      (filter (\<lambda>(s, messages). has_refrigerator_annotation s (Some messages)) session_list = []
         \<longrightarrow> rate = 0)) \<and>
   (\<exists>stats. calculate_participant_refrigerator_rates sessions messages_data include_split_sessions
               = Inr stats \<and>
      (\<forall>(pid, st) \<in> set stats. rates_stored st))"
proof (intro conjI)
  show "\<exists>rates. calculate_refrigerator_rate_by_method sessions messages_data = Inr rates \<and>
      (\<forall>(method, rate) \<in> set rates. 0 \<le> rate \<and> rate \<le> 100)"
    unfolding calculate_refrigerator_rate_by_method_def
    using method_rates_loop_bounds [of "group_by_method messages_data [] sessions"] by blast
  show "\<exists>rate. method_rate session_list = Inr rate \<and> 0 \<le> rate \<and> rate \<le> 100 \<and>
      (filter (\<lambda>(s, messages). has_refrigerator_annotation s (Some messages)) session_list = []
         \<longrightarrow> rate = 0)"
    by (rule method_rate_value)
  have "\<forall>(k, st) \<in> set (count_sessions include_split_sessions messages_data [] sessions).
          stats_ok st"
    by (rule count_sessions_ok) simp
  then show "\<exists>stats. calculate_participant_refrigerator_rates sessions messages_data
                 include_split_sessions = Inr stats \<and>
      (\<forall>(pid, st) \<in> set stats. rates_stored st)"
    unfolding calculate_participant_refrigerator_rates_def
    using store_rates_loop_ok by blast
qed

lemma sample_method_rates:
  "calculate_refrigerator_rate_by_method sample_sessions sample_messages
     = Inr [(''Scenario'', 50), (''Microlearning'', 0)]"
  by code_simp

lemma sample_participant_rates:
  "map (\<lambda>(pid, st). (pid, total_sessions st, split_sessions st, refrigerator_rate st,
                       refrigerator_rate_with_split st))
     (projr (calculate_participant_refrigerator_rates sample_sessions sample_messages False))
     = [(''p1'', 2, 0, Some 50, Some 50), (''p2'', 0, 1, Some 0, Some 0)]"
  by code_simp

theorem C9_rates_guarded_witness:
  "calculate_refrigerator_rate_by_method sample_sessions sample_messages
     = Inr [(''Scenario'', 50), (''Microlearning'', 0)] \<and>
   (\<exists>stats. calculate_participant_refrigerator_rates sample_sessions sample_messages False
               = Inr stats \<and>
      map (\<lambda>(pid, st). (pid, total_sessions st, split_sessions st, refrigerator_rate st,
                         refrigerator_rate_with_split st)) stats
        = [(''p1'', 2, 0, Some 50, Some 50), (''p2'', 0, 1, Some 0, Some 0)] \<and>
      list_all (\<lambda>(pid, st). rates_stored st) stats)"
proof -
  obtain stats where s:
    "calculate_participant_refrigerator_rates sample_sessions sample_messages False = Inr stats"
    "\<forall>(pid, st) \<in> set stats. rates_stored st"
    using C9_rates_guarded [of sample_sessions sample_messages "[]" False] by blast
  from s(1) sample_participant_rates
  have a: "map (\<lambda>(pid, st). (pid, total_sessions st, split_sessions st, refrigerator_rate st,
                         refrigerator_rate_with_split st)) stats
        = [(''p1'', 2, 0, Some 50, Some 50), (''p2'', 0, 1, Some 0, Some 0)]"
    by simp
  from s(2) have b: "list_all (\<lambda>(pid, st). rates_stored st) stats"
    by (simp add: list_all_iff)
  show ?thesis
  proof (rule conjI)
    show "calculate_refrigerator_rate_by_method sample_sessions sample_messages
            = Inr [(''Scenario'', 50), (''Microlearning'', 0)]"
      by (rule sample_method_rates)
    show "\<exists>stats. calculate_participant_refrigerator_rates sample_sessions sample_messages False
               = Inr stats \<and>
      map (\<lambda>(pid, st). (pid, total_sessions st, split_sessions st, refrigerator_rate st,
                         refrigerator_rate_with_split st)) stats
        = [(''p1'', 2, 0, Some 50, Some 50), (''p2'', 0, 1, Some 0, Some 0)] \<and>
      list_all (\<lambda>(pid, st). rates_stored st) stats"
      using s(1) a b by (intro exI [of _ stats] conjI)
  qed
qed

subsection \<open>Loaders\<close>

lemma parsed_Nil: "parsed [] = []"
  by (simp add: parsed_def)

lemma parsed_failed: "loaded f = Inl e \<Longrightarrow> parsed (f # fs) = parsed fs"
  by (simp add: parsed_def)

lemma parsed_ok: "loaded f = Inr d \<Longrightarrow> parsed (f # fs) = (stem f, d) # parsed fs"
  by (simp add: parsed_def)

lemma sessions_loop_parsed:
  "sessions_loop sessions session_files = sessions @ map snd (parsed session_files)"
proof (induction session_files arbitrary: sessions)
  case Nil
  show ?case by (simp add: parsed_Nil)
next
  case (Cons f fs)
  show ?case
  proof (cases "loaded f")
    case (Inl e)
    then show ?thesis by (simp add: try_append_session_def Cons parsed_failed)
  next
    case (Inr s)
    then show ?thesis by (simp add: try_append_session_def Cons parsed_ok)
  qed
qed

lemma map_add_entry: "m(k \<mapsto> v) ++ map_of (rev es) = m ++ map_of (rev ((k, v) # es))"
proof -
  have "map_of (rev ((k, v) # es)) = map_of [(k, v)] ++ map_of (rev es)"
    by (simp only: rev.simps map_of_append)
  then have "m ++ map_of (rev ((k, v) # es)) = (m ++ map_of [(k, v)]) ++ map_of (rev es)"
    by (simp only: map_add_assoc)
  also have "m ++ map_of [(k, v)] = m(k \<mapsto> v)"
    by simp
  finally show ?thesis by simp
qed

lemma messages_loop_parsed:
  "messages_loop messages_data message_files
     = messages_data ++ map_of (rev (message_entries (parsed message_files)))"
proof (induction message_files arbitrary: messages_data)
  case Nil
  show ?case by (simp add: parsed_Nil message_entries_def)
next
  case (Cons f fs)
  show ?case
  proof (cases "loaded f")
    case (Inl e)
    then show ?thesis by (simp add: try_store_messages_def Cons parsed_failed)
  next
    case (Inr d)
    let ?k = "remove_all ''messages_'' (stem f)"
    let ?v = "case messages_field d of None \<Rightarrow> [] | Some ms \<Rightarrow> ms"
    have "messages_loop messages_data (f # fs) = messages_loop (messages_data(?k \<mapsto> ?v)) fs"
      using Inr by (simp add: try_store_messages_def Let_def)
    also have "\<dots> = messages_data(?k \<mapsto> ?v) ++ map_of (rev (message_entries (parsed fs)))"
      by (rule Cons)
    also have "\<dots> = messages_data ++ map_of (rev ((?k, ?v) # message_entries (parsed fs)))"
      by (rule map_add_entry)
    also have "(?k, ?v) # message_entries (parsed fs) = message_entries (parsed (f # fs))"
      using Inr by (simp add: parsed_ok message_entries_def)
    finally show ?thesis .
  qed
qed

lemma filtered_sessions_loop_parsed:
  "fst (filtered_sessions_loop st session_files)
     = fst st @ filter kept_session (map snd (parsed session_files))"
proof (induction session_files arbitrary: st)
  case Nil
  show ?case by (simp add: parsed_Nil)
next
  case (Cons f fs)
  show ?case
  proof (cases "loaded f")
    case (Inl e)
    then show ?thesis by (simp add: try_filter_session_def Cons parsed_failed)
  next
    case (Inr s)
    then show ?thesis
      by (simp add: try_filter_session_def Cons parsed_ok kept_session_def)
  qed
qed

lemma filtered_entries_Nil: "filtered_message_entries wanted_ids [] = []"
  by (simp add: filtered_message_entries_def)

lemma filtered_entries_Cons:
  "filtered_message_entries wanted_ids ((st, d) # docs) =
     (if remove_all ''messages_'' st \<in> set wanted_ids
      then (case messages_field d of
              None \<Rightarrow> filtered_message_entries wanted_ids docs
            | Some ms \<Rightarrow> (remove_all ''messages_'' st, ms) # filtered_message_entries wanted_ids docs)
      else filtered_message_entries wanted_ids docs)"
  by (simp add: filtered_message_entries_def split: option.splits)

lemma filtered_messages_loop_parsed:
  "filtered_messages_loop wanted_ids filtered_messages message_files
     = filtered_messages ++ map_of (rev (filtered_message_entries wanted_ids (parsed message_files)))"
proof (induction message_files arbitrary: filtered_messages)
  case Nil
  show ?case by (simp add: parsed_Nil filtered_entries_Nil)
next
  case (Cons f fs)
  let ?k = "remove_all ''messages_'' (stem f)"
  show ?case
  proof (cases "loaded f")
    case (Inl e)
    then show ?thesis by (simp add: try_filter_messages_def Cons parsed_failed Let_def)
  next
    case (Inr d)
    show ?thesis
    proof (cases "?k \<in> set wanted_ids \<and> messages_field d \<noteq> None")
      case False
      then have "filtered_messages_loop wanted_ids filtered_messages (f # fs)
                   = filtered_messages_loop wanted_ids filtered_messages fs"
        using Inr by (auto simp: try_filter_messages_def Let_def)
      moreover have "filtered_message_entries wanted_ids (parsed (f # fs))
                   = filtered_message_entries wanted_ids (parsed fs)"
        using Inr False by (auto simp: parsed_ok filtered_entries_Cons)
      ultimately show ?thesis by (simp add: Cons)
    next
      case True
      then obtain ms where ms: "messages_field d = Some ms" and k: "?k \<in> set wanted_ids"
        by auto
      have "filtered_messages_loop wanted_ids filtered_messages (f # fs)
              = filtered_messages_loop wanted_ids (filtered_messages(?k \<mapsto> ms)) fs"
        using Inr ms k by (simp add: try_filter_messages_def Let_def)
      also have "\<dots> = filtered_messages(?k \<mapsto> ms)
                  ++ map_of (rev (filtered_message_entries wanted_ids (parsed fs)))"
        by (rule Cons)
      also have "\<dots> = filtered_messages
                  ++ map_of (rev ((?k, ms) # filtered_message_entries wanted_ids (parsed fs)))"
        by (rule map_add_entry)
      also have "(?k, ms) # filtered_message_entries wanted_ids (parsed fs)
                   = filtered_message_entries wanted_ids (parsed (f # fs))"
        using Inr ms k by (simp add: parsed_ok filtered_entries_Cons)
      finally show ?thesis .
    qed
  qed
qed

text \<open>
  Claim C6: a file whose reading or decoding raises is skipped and the loop goes on.
  The loaders return values, not exceptions: the session list is the documents of the
  files that were read and decoded, in directory order (for
  \<^verbatim>\<open>load_sessions_from_files\<close>, those that pass its two filters), and the message
  dictionary holds exactly the entries of the decoded message files, a later file
  winning where two files give the same session id.
\<close>

theorem C6_loaders_skip_failures:
  "load_sessions_and_messages (Some session_files) (Some message_files)
     = (map snd (parsed session_files),
        map_of (rev (message_entries (parsed message_files)))) \<and>
   load_sessions_from_files (Some session_files)
     = filter kept_session (map snd (parsed session_files)) \<and>
   load_messages_from_files wanted_ids (Some message_files)
     = map_of (rev (filtered_message_entries wanted_ids (parsed message_files))) \<and>
   dom (snd (load_sessions_and_messages (Some session_files) (Some message_files)))
     = fst ` set (message_entries (parsed message_files))"
  by (simp add: load_sessions_and_messages_def load_sessions_from_files_def
      load_messages_from_files_def sessions_loop_parsed messages_loop_parsed
      filtered_sessions_loop_parsed filtered_messages_loop_parsed dom_map_of_conv_image_fst)

lemma sample_parsed_sessions:
  "map snd (parsed sample_session_files)
     = [session_of_experiment ''5d8be75e-03ff-4e3a-ab6a-e0aff6580986'',
        session_of_participant ''amy@dimagi.com'']"
  by code_simp

lemma sample_kept_sessions:
  "filter kept_session (map snd (parsed sample_session_files))
     = [session_of_experiment ''5d8be75e-03ff-4e3a-ab6a-e0aff6580986'']"
  by code_simp

lemma sample_message_map:
  "map_of (rev (message_entries (parsed sample_message_files))) ''a'' = Some [user_msg ''hi''] \<and>
   map_of (rev (message_entries (parsed sample_message_files))) ''bad'' = None \<and>
   map_of (rev (message_entries (parsed sample_message_files))) ''c'' = Some []"
  by code_simp

lemma sample_filtered_message_map:
  "map_of (rev (filtered_message_entries [''a'', ''bad'', ''c''] (parsed sample_message_files))) ''a''
     = Some [user_msg ''hi''] \<and>
   map_of (rev (filtered_message_entries [''a'', ''bad'', ''c''] (parsed sample_message_files))) ''c''
     = None"
  by code_simp

theorem C6_loaders_skip_failures_witness:
  "fst (load_sessions_and_messages (Some sample_session_files) (Some sample_message_files))
     = [session_of_experiment ''5d8be75e-03ff-4e3a-ab6a-e0aff6580986'',
        session_of_participant ''amy@dimagi.com''] \<and>
   snd (load_sessions_and_messages (Some sample_session_files) (Some sample_message_files)) ''a''
     = Some [user_msg ''hi''] \<and>
   snd (load_sessions_and_messages (Some sample_session_files) (Some sample_message_files)) ''bad''
     = None \<and>
   snd (load_sessions_and_messages (Some sample_session_files) (Some sample_message_files)) ''c''
     = Some [] \<and>
   load_sessions_from_files (Some sample_session_files)
     = [session_of_experiment ''5d8be75e-03ff-4e3a-ab6a-e0aff6580986''] \<and>
   load_messages_from_files [''a'', ''bad'', ''c''] (Some sample_message_files) ''a''
     = Some [user_msg ''hi''] \<and>
   load_messages_from_files [''a'', ''bad'', ''c''] (Some sample_message_files) ''c'' = None"
proof -
  note c6 = C6_loaders_skip_failures
    [of sample_session_files sample_message_files "[''a'', ''bad'', ''c'']"]
  have a: "load_sessions_and_messages (Some sample_session_files) (Some sample_message_files)
             = (map snd (parsed sample_session_files),
                map_of (rev (message_entries (parsed sample_message_files))))"
    using c6 by (rule conjunct1)
  have b: "load_sessions_from_files (Some sample_session_files)
             = filter kept_session (map snd (parsed sample_session_files))"
    using c6 by (elim conjE)
  have c: "load_messages_from_files [''a'', ''bad'', ''c''] (Some sample_message_files)
             = map_of (rev (filtered_message_entries [''a'', ''bad'', ''c'']
                 (parsed sample_message_files)))"
    using c6 by (elim conjE)
  show ?thesis
    unfolding a b c fst_conv snd_conv
    using sample_parsed_sessions sample_kept_sessions sample_message_map
      sample_filtered_message_map
    by (intro conjI) (elim conjE, assumption)+
qed

subsection \<open>Whitespace and patterns\<close>

lemma digit_not_space: "d \<in> set ''12345'' \<Longrightarrow> \<not> is_space d"
  by (auto simp: is_space_def)

lemma digit_is_word: "d \<in> set ''12345'' \<Longrightarrow> is_word_char d"
  by (auto simp: is_word_char_def)

lemma newline_is_space: "is_space (CHR 0x0A)"
  by (simp add: is_space_def)

lemma dropWhile_rev_head:
  "dropWhile P (rev (x # xs)) \<noteq> [] \<Longrightarrow> \<not> P x \<Longrightarrow> hd (rev (dropWhile P (rev (x # xs)))) = x"
  by (induction xs rule: rev_induct) (auto simp: hd_append split: if_splits)

lemma strip_first: "strip s \<noteq> [] \<Longrightarrow> \<not> is_space (hd (strip s))"
proof -
  assume ne: "strip s \<noteq> []"
  let ?t = "dropWhile is_space s"
  have t: "?t \<noteq> []"
  proof
    assume e: "?t = []"
    have "strip s = []" by (simp only: strip_def e rev.simps dropWhile.simps)
    with ne show False by simp
  qed
  then obtain x xs where xs: "?t = x # xs" by (cases ?t) auto
  then have nx: "\<not> is_space x" using hd_dropWhile [of is_space s] t by (metis list.sel(1))
  have "hd (strip s) = x"
    using ne nx unfolding strip_def xs by (intro dropWhile_rev_head) auto
  with nx show ?thesis by simp
qed

lemma strip_last: "strip s \<noteq> [] \<Longrightarrow> \<not> is_space (last (strip s))"
proof -
  assume ne: "strip s \<noteq> []"
  let ?r = "dropWhile is_space (rev (dropWhile is_space s))"
  from ne have r: "?r \<noteq> []" by (simp add: strip_def)
  then have "\<not> is_space (hd ?r)" by (rule hd_dropWhile)
  moreover have "last (strip s) = hd ?r" using r by (simp add: strip_def last_rev)
  ultimately show ?thesis by simp
qed

lemma dropWhile_id: "xs = [] \<or> \<not> P (hd xs) \<Longrightarrow> dropWhile P xs = xs"
  by (cases xs) auto

lemma strip_id: "s = [] \<or> (\<not> is_space (hd s) \<and> \<not> is_space (last s)) \<Longrightarrow> strip s = s"
proof (cases "s = []")
  case True
  then show ?thesis by (simp add: strip_def)
next
  case False
  assume "s = [] \<or> (\<not> is_space (hd s) \<and> \<not> is_space (last s))"
  with False have h: "\<not> is_space (hd s)" and l: "\<not> is_space (last s)" by auto
  have "dropWhile is_space s = s" using h by (intro dropWhile_id) simp
  moreover have "dropWhile is_space (rev s) = rev s"
    using l False by (intro dropWhile_id) (simp add: hd_rev)
  ultimately show ?thesis by (simp add: strip_def)
qed

lemma strip_idem: "strip (strip s) = strip s"
  using strip_first [of s] strip_last [of s] by (intro strip_id) blast

lemma star_positions_split:
  "(q, t) \<in> set (star_positions a p s) \<Longrightarrow> \<exists>u. s = u @ t \<and> (\<forall>c \<in> set u. atom_ok a c)"
proof (induction s arbitrary: p)
  case Nil
  then show ?case by simp
next
  case (Cons c cs)
  show ?case
  proof (cases "(q, t) = (p, c # cs)")
    case True
    then show ?thesis by simp
  next
    case False
    with Cons.prems have ok: "atom_ok a c" and mem: "(q, t) \<in> set (star_positions a (Some c) cs)"
      by (auto split: if_splits)
    from Cons.IH [OF mem] obtain u where "cs = u @ t" "\<forall>c \<in> set u. atom_ok a c" by blast
    with ok have "c # cs = (c # u) @ t \<and> (\<forall>x \<in> set (c # u). atom_ok a x)" by simp
    then show ?thesis by blast
  qed
qed

lemma run_nonempty:
  "run (i # r) pos \<noteq> [] \<longleftrightarrow> (\<exists>pos' \<in> set (step i pos). run r pos' \<noteq> [])"
  by auto

lemma single_digit_match_digit:
  assumes d: "d \<in> set ''12345''"
  shows "re_match single_digit_pattern [d] = Some [d]"
proof -
  have ns: "\<not> is_space d" using d by (rule digit_not_space)
  have "run single_digit_pattern (None, [d]) = [(Some d, [])]"
    using d ns by (simp add: single_digit_pattern_def)
  then show ?thesis by (simp add: re_match_def match_at_def)
qed

lemma single_digit_match_only:
  assumes m: "re_match single_digit_pattern c \<noteq> None"
    and st: "c = [] \<or> (\<not> is_space (hd c) \<and> \<not> is_space (last c))"
  shows "\<exists>d \<in> set ''12345''. c = [d]"
proof -
  from m have r0: "run single_digit_pattern (None, c) \<noteq> []"
    by (auto simp: re_match_def match_at_def split: list.splits)
  have "run single_digit_pattern (None, c)
          = run [Star Space, One (Class ''12345''), Star Space, Eol] (None, c)"
    by (simp add: single_digit_pattern_def)
  with r0 have "run [Star Space, One (Class ''12345''), Star Space, Eol] (None, c) \<noteq> []"
    by simp
  with run_nonempty [of "Star Space" "[One (Class ''12345''), Star Space, Eol]" "(None, c)"]
  obtain pos1 where p1': "pos1 \<in> set (step (Star Space) (None, c))"
      and r1: "run [One (Class ''12345''), Star Space, Eol] pos1 \<noteq> []"
    by blast
  obtain q1 t1 where pos1: "pos1 = (q1, t1)" by (cases pos1)
  from p1' pos1 have p1: "(q1, t1) \<in> set (star_positions Space None c)" by simp
  from star_positions_split [OF p1]
  obtain u1 where u1: "c = u1 @ t1" "\<forall>x \<in> set u1. is_space x" by auto
  from r1 pos1
    run_nonempty [of "One (Class ''12345'')" "[Star Space, Eol]" "(q1, t1)"]
  obtain pos2 where p2: "pos2 \<in> set (step (One (Class ''12345'')) (q1, t1))"
      and r2': "run [Star Space, Eol] pos2 \<noteq> []"
    by blast
  from p2 obtain d xs where t1: "t1 = d # xs" and d: "d \<in> set ''12345''"
      and pos2: "pos2 = (Some d, xs)"
    by (cases t1) (auto split: if_splits)
  from r2' pos2 run_nonempty [of "Star Space" "[Eol]" "(Some d, xs)"]
  obtain pos3 where p3': "pos3 \<in> set (step (Star Space) (Some d, xs))"
      and r3: "run [Eol] pos3 \<noteq> []"
    by blast
  obtain q3 t3 where pos3: "pos3 = (q3, t3)" by (cases pos3)
  from p3' pos3 have p3: "(q3, t3) \<in> set (star_positions Space (Some d) xs)" by simp
  from r3 pos3 have e: "t3 = [] \<or> t3 = [CHR 0x0A]"
    by (auto split: if_splits)
  have "u1 = []"
  proof (rule ccontr)
    assume "u1 \<noteq> []"
    then have "hd c = hd u1" and "hd u1 \<in> set u1" and "c \<noteq> []" using u1(1) by auto
    with u1(2) st show False by auto
  qed
  with u1 t1 have c: "c = d # xs" by simp
  from star_positions_split [OF p3]
  obtain u3 where u3: "xs = u3 @ t3" "\<forall>x \<in> set u3. is_space x" by auto
  have "xs = []"
  proof (rule ccontr)
    assume ne: "xs \<noteq> []"
    then have l: "last c = last xs" using c by simp
    have "is_space (last xs)"
    proof (cases "t3 = []")
      case True
      with u3 ne have "last xs \<in> set u3" by auto
      with u3(2) show ?thesis by blast
    next
      case False
      with e have "t3 = [CHR 0x0A]" by simp
      with u3 have "last xs = CHR 0x0A" by simp
      then show ?thesis by (simp add: newline_is_space)
    qed
    with l st c show False by auto
  qed
  with c d show ?thesis by auto
qed

lemma single_digit_match_iff:
  "re_match single_digit_pattern (strip s) \<noteq> None \<longleftrightarrow> single_digit_reply (strip s)"
proof
  assume "re_match single_digit_pattern (strip s) \<noteq> None"
  then show "single_digit_reply (strip s)"
    unfolding single_digit_reply_def
    using strip_first [of s] strip_last [of s] by (intro single_digit_match_only) auto
next
  assume "single_digit_reply (strip s)"
  then show "re_match single_digit_pattern (strip s) \<noteq> None"
    by (auto simp: single_digit_reply_def single_digit_match_digit)
qed

lemma standalone_match_at:
  "match_at standalone_digit_pattern (p, s) =
     (case s of
        [] \<Rightarrow> None
      | c # cs \<Rightarrow> if c \<in> set ''12345'' \<and> \<not> word_before p \<and> \<not> word_after cs then Some [c]
                  else None)"
proof (cases s)
  case Nil
  then show ?thesis by (simp add: match_at_def standalone_digit_pattern_def)
next
  case (Cons c cs)
  show ?thesis
  proof (cases "c \<in> set ''12345''")
    case True
    then have w: "is_word_char c" by (rule digit_is_word)
    then have "word_after (c # cs)" and "word_before (Some c)"
      by (simp_all add: word_after_def word_before_def)
    with True show ?thesis
      unfolding Cons by (simp add: match_at_def standalone_digit_pattern_def)
  next
    case False
    then show ?thesis
      unfolding Cons by (simp add: match_at_def standalone_digit_pattern_def)
  qed
qed

lemma standalone_search_from:
  "search_from standalone_digit_pattern p s = map_option (\<lambda>d. [d]) (first_standalone_digit p s)"
  by (induction s arbitrary: p) (simp_all add: standalone_match_at)

lemma first_standalone_digit_in: "first_standalone_digit p s = Some d \<Longrightarrow> d \<in> set ''12345''"
  by (induction s arbitrary: p) (auto split: if_splits)

lemma first_standalone_digit_iff:
  "first_standalone_digit p s \<noteq> None \<longleftrightarrow>
     (\<exists>u d v. s = u @ d # v \<and> d \<in> set ''12345'' \<and>
        \<not> word_before (if u = [] then p else Some (last u)) \<and> \<not> word_after v)"
proof (induction s arbitrary: p)
  case Nil
  show ?case by simp
next
  case (Cons c cs)
  show ?case
  proof (cases "c \<in> set ''12345'' \<and> \<not> word_before p \<and> \<not> word_after cs")
    case True
    then have "c # cs = [] @ c # cs \<and> c \<in> set ''12345'' \<and>
        \<not> word_before (if ([]::string) = [] then p else Some (last [])) \<and> \<not> word_after cs"
      by simp
    then have "\<exists>u d v. c # cs = u @ d # v \<and> d \<in> set ''12345'' \<and>
        \<not> word_before (if u = [] then p else Some (last u)) \<and> \<not> word_after v"
      by blast
    moreover from True have "first_standalone_digit p (c # cs) \<noteq> None" by simp
    ultimately show ?thesis by (intro iffI)
  next
    case False
    have eq1: "first_standalone_digit p (c # cs) = first_standalone_digit (Some c) cs"
      by (simp only: first_standalone_digit.simps False if_False)
    have "(\<exists>u d v. c # cs = u @ d # v \<and> d \<in> set ''12345'' \<and>
              \<not> word_before (if u = [] then p else Some (last u)) \<and> \<not> word_after v)
          \<longleftrightarrow> (\<exists>u d v. cs = u @ d # v \<and> d \<in> set ''12345'' \<and>
              \<not> word_before (if u = [] then Some c else Some (last u)) \<and> \<not> word_after v)"
      (is "?L \<longleftrightarrow> ?R")
    proof
      assume ?L
      then obtain u d v where h: "c # cs = u @ d # v" "d \<in> set ''12345''"
        "\<not> word_before (if u = [] then p else Some (last u))" "\<not> word_after v" by blast
      from h False have "u \<noteq> []" by (cases u) auto
      then obtain u' where u': "u = c # u'" using h(1) by (cases u) auto
      with h have "cs = u' @ d # v \<and> d \<in> set ''12345'' \<and>
          \<not> word_before (if u' = [] then Some c else Some (last u')) \<and> \<not> word_after v"
        by (auto split: if_splits)
      then show ?R by blast
    next
      assume ?R
      then obtain u d v where h: "cs = u @ d # v" "d \<in> set ''12345''"
        "\<not> word_before (if u = [] then Some c else Some (last u))" "\<not> word_after v" by blast
      then have "c # cs = (c # u) @ d # v \<and> d \<in> set ''12345'' \<and>
          \<not> word_before (if c # u = [] then p else Some (last (c # u))) \<and> \<not> word_after v"
        by (auto split: if_splits)
      then show ?L by blast
    qed
    with Cons.IH [of "Some c"] show ?thesis by (simp only: eq1)
  qed
qed

lemma has_standalone_digit_first:
  "has_standalone_digit c \<longleftrightarrow> first_standalone_digit None c \<noteq> None"
proof -
  have a: "\<not> word_before (if u = [] then None else Some (last u)) \<longleftrightarrow>
            (u = [] \<or> \<not> is_word_char (last u))" for u :: string
    by (simp add: word_before_def)
  have b: "\<not> word_after v \<longleftrightarrow> (v = [] \<or> \<not> is_word_char (hd v))" for v
    by (cases v) (simp_all add: word_after_def)
  show ?thesis
    unfolding has_standalone_digit_def first_standalone_digit_iff a b ..
qed

subsection \<open>Rating extraction\<close>

lemma question_loop_iff:
  "question_loop ms \<longleftrightarrow>
     (\<exists>m \<in> set ms. has_role m ''assistant'' \<and> is_rating_question (lower (content_of m)))"
  by (induction ms) auto

lemma digit_value_range: "d \<in> set ''12345'' \<Longrightarrow> 1 \<le> digit_value d \<and> digit_value d \<le> 5"
  by (auto simp: digit_value_def)

lemma py_float_digit:
  "d \<in> set ''12345'' \<Longrightarrow> py_float [d] = Inr (PyFloat (of_int (digit_value d)))"
  by (auto simp: py_float_def isdecimal_def is_decimal_char_def int_of_digits_def)

lemma py_int_digit: "d \<in> set ''12345'' \<Longrightarrow> py_int [d] = Inr (PyInt (digit_value d))"
  by (auto simp: py_int_def int_of_str_def isdecimal_def is_decimal_char_def int_of_digits_def
      max_str_digits_def)

lemma written_numbers_Some:
  "map_of written_numbers w = Some n \<Longrightarrow>
     w \<in> set [''one'', ''two'', ''three'', ''four'', ''five''] \<and> 1 \<le> n \<and> n \<le> 5"
  by (auto simp: written_numbers_def split: if_splits)

lemma written_numbers_None:
  "map_of written_numbers w = None \<Longrightarrow> w \<notin> set [''one'', ''two'', ''three'', ''four'', ''five'']"
  by (auto simp: written_numbers_def split: if_splits)

lemma response_step:
  assumes conv: "\<And>d. d \<in> set ''12345'' \<Longrightarrow> of_str [d] = Inr (of_num (digit_value d))"
    and user: "has_role m ''user''"
  shows "response_loop of_str of_num (m # ms) =
           (if qualifying_reply (reply_text m)
            then Inr (Some (of_num (reply_rating (reply_text m))))
            else response_loop of_str of_num ms)"
proof -
  let ?c = "strip (content_of m)"
  have c: "reply_text m = ?c" by (simp add: reply_text_def)
  show ?thesis
  proof (cases "single_digit_reply ?c")
    case True
    then obtain d where d: "d \<in> set ''12345''" "?c = [d]"
      by (auto simp: single_digit_reply_def)
    have m: "re_match single_digit_pattern ?c \<noteq> None"
      using True by (simp only: single_digit_match_iff)
    have "strip ?c = ?c" by (rule strip_idem)
    with d(2) have s: "strip ?c = [d]" by simp
    have q: "qualifying_reply ?c" using True by (simp add: qualifying_reply_def)
    have r: "reply_rating ?c = digit_value d"
      using True d(2) by (simp add: reply_rating_def)
    have "response_loop of_str of_num (m # ms) = Inr (Some (of_num (digit_value d)))"
      using user m by (simp add: Let_def s conv [OF d(1)])
    with q r show ?thesis by (simp only: c if_True)
  next
    case False
    then have m: "re_match single_digit_pattern ?c = None"
      using single_digit_match_iff [of "content_of m"] by blast
    show ?thesis
    proof (cases "map_of written_numbers (lower ?c)")
      case (Some n)
      then have "written_number_reply ?c"
        using written_numbers_Some [OF Some] by (simp add: written_number_reply_def)
      then have q: "qualifying_reply ?c" by (simp add: qualifying_reply_def)
      have r: "reply_rating ?c = n" using False Some by (simp add: reply_rating_def)
      have "response_loop of_str of_num (m # ms) = Inr (Some (of_num n))"
        using user m Some by (simp add: Let_def)
      with q r show ?thesis by (simp only: c if_True)
    next
      case None
      then have nw: "\<not> written_number_reply ?c"
        using written_numbers_None [OF None] by (simp add: written_number_reply_def)
      have srch: "re_search standalone_digit_pattern ?c
                    = map_option (\<lambda>d. [d]) (first_standalone_digit None ?c)"
        by (simp only: re_search_def standalone_search_from)
      show ?thesis
      proof (cases "first_standalone_digit None ?c")
        case nd: None
        then have "\<not> has_standalone_digit ?c" by (simp add: has_standalone_digit_first)
        with False nw have q: "\<not> qualifying_reply ?c" by (simp add: qualifying_reply_def)
        have "response_loop of_str of_num (m # ms) = response_loop of_str of_num ms"
          using user m None srch nd by (simp add: Let_def)
        with q show ?thesis by (simp only: c if_False)
      next
        case (Some d)
        then have d: "d \<in> set ''12345''" by (rule first_standalone_digit_in)
        have hs: "has_standalone_digit ?c" using Some by (simp add: has_standalone_digit_first)
        show ?thesis
        proof (cases "length ?c < 100")
          case True
          with hs have q: "qualifying_reply ?c" by (simp add: qualifying_reply_def)
          have r: "reply_rating ?c = digit_value d"
            using False None Some by (simp add: reply_rating_def)
          have "response_loop of_str of_num (m # ms) = Inr (Some (of_num (digit_value d)))"
            using user m None srch Some True by (simp add: Let_def conv [OF d])
          with q r show ?thesis by (simp only: c if_True)
        next
          case long: False
          with False nw have q: "\<not> qualifying_reply ?c" by (simp add: qualifying_reply_def)
          have "response_loop of_str of_num (m # ms) = response_loop of_str of_num ms"
            using user m None srch Some long by (simp add: Let_def)
          with q show ?thesis by (simp only: c if_False)
        qed
      qed
    qed
  qed
qed

lemma response_loop_find:
  assumes conv: "\<And>d. d \<in> set ''12345'' \<Longrightarrow> of_str [d] = Inr (of_num (digit_value d))"
  shows "response_loop of_str of_num ms =
           (case find (\<lambda>m. qualifying_reply (reply_text m)) (filter (\<lambda>m. has_role m ''user'') ms) of
              None \<Rightarrow> Inr None
            | Some m \<Rightarrow> Inr (Some (of_num (reply_rating (reply_text m)))))"
proof (induction ms)
  case Nil
  show ?case by simp
next
  case (Cons m ms)
  show ?case
  proof (cases "has_role m ''user''")
    case True
    have "response_loop of_str of_num (m # ms) =
           (if qualifying_reply (reply_text m)
            then Inr (Some (of_num (reply_rating (reply_text m))))
            else response_loop of_str of_num ms)"
      using conv True by (rule response_step)
    with True Cons show ?thesis by simp
  next
    case False
    have "response_loop of_str of_num (m # ms) = response_loop of_str of_num ms"
      using False by simp
    with False Cons show ?thesis by simp
  qed
qed

lemma reply_rating_range:
  assumes "qualifying_reply c"
  shows "1 \<le> reply_rating c \<and> reply_rating c \<le> 5"
proof (cases "single_digit_reply c")
  case True
  then obtain d where "d \<in> set ''12345''" "c = [d]" by (auto simp: single_digit_reply_def)
  with True digit_value_range [of d] show ?thesis by (simp add: reply_rating_def)
next
  case False
  show ?thesis
  proof (cases "map_of written_numbers (lower c)")
    case (Some n)
    with False written_numbers_Some [OF Some] show ?thesis by (simp add: reply_rating_def)
  next
    case None
    then have "\<not> written_number_reply c"
      using written_numbers_None [OF None] by (simp add: written_number_reply_def)
    with assms False have "has_standalone_digit c" by (simp add: qualifying_reply_def)
    then obtain d where d: "first_standalone_digit None c = Some d"
      by (auto simp: has_standalone_digit_first)
    from first_standalone_digit_in [OF d] have "1 \<le> digit_value d \<and> digit_value d \<le> 5"
      by (rule digit_value_range)
    with False None d show ?thesis by (simp add: reply_rating_def)
  qed
qed

lemma extract_session_rating_find:
  "extract_session_rating s messages =
     (if \<not> asks_for_rating messages then Inr None
      else case first_rating_reply messages of
             None \<Rightarrow> Inr None
           | Some m \<Rightarrow> Inr (Some (PyFloat (of_int (reply_rating (reply_text m))))))"
proof -
  have q: "question_loop (rev messages) = asks_for_rating messages"
    by (simp add: question_loop_iff asks_for_rating_def)
  have r: "response_loop py_float (\<lambda>n. PyFloat (of_int n)) (rev messages) =
           (case first_rating_reply messages of
              None \<Rightarrow> Inr None
            | Some m \<Rightarrow> Inr (Some (PyFloat (of_int (reply_rating (reply_text m))))))"
    unfolding first_rating_reply_def by (rule response_loop_find) (rule py_float_digit)
  have e: "messages = [] \<Longrightarrow> \<not> asks_for_rating messages"
    by (simp add: asks_for_rating_def)
  show ?thesis
    unfolding extract_session_rating_def q r using e by auto
qed

lemma extract_rating_from_session_find:
  "extract_rating_from_session s messages =
     (if \<not> asks_for_rating messages then Inr None
      else case first_rating_reply messages of
             None \<Rightarrow> Inr None
           | Some m \<Rightarrow> Inr (Some (PyInt (reply_rating (reply_text m)))))"
proof -
  have q: "question_loop (rev messages) = asks_for_rating messages"
    by (simp add: question_loop_iff asks_for_rating_def)
  have r: "response_loop py_int PyInt (rev messages) =
           (case first_rating_reply messages of
              None \<Rightarrow> Inr None
            | Some m \<Rightarrow> Inr (Some (PyInt (reply_rating (reply_text m)))))"
    unfolding first_rating_reply_def by (rule response_loop_find) (rule py_int_digit)
  have e: "messages = [] \<Longrightarrow> \<not> asks_for_rating messages"
    by (simp add: asks_for_rating_def)
  show ?thesis
    unfolding extract_rating_from_session_def q r using e by auto
qed

lemma first_rating_reply_qualifies:
  "first_rating_reply messages = Some m \<Longrightarrow>
     m \<in> set messages \<and> has_role m ''user'' \<and> qualifying_reply (reply_text m)"
  by (auto simp: first_rating_reply_def find_Some_iff dest: nth_mem)

lemma has_standalone_digit_code [code]:
  "has_standalone_digit c = (first_standalone_digit None c \<noteq> None)"
  by (rule has_standalone_digit_first)

text \<open>
  Claim C2: the extractor returns no rating unless some assistant message holds a
  rating-question pattern (the scan is over all assistant messages, so its order does
  not change the answer). Otherwise it walks the user messages from the last to the
  first and answers with the rating of the first one whose text qualifies: a single
  digit 1 to 5, a written number one to five, or a text shorter than 100 characters with
  a standalone digit 1 to 5; and it returns no rating when no user message qualifies.
  \<^verbatim>\<open>extract_session_rating\<close> gives the rating as a float,
  \<^verbatim>\<open>extract_rating_from_session\<close> as an integer.
\<close>

theorem C2_rating_extractor:
  "extract_session_rating s messages =
     (if \<not> asks_for_rating messages then Inr None
      else case first_rating_reply messages of
             None \<Rightarrow> Inr None
           | Some m \<Rightarrow> Inr (Some (PyFloat (of_int (reply_rating (reply_text m)))))) \<and>
   extract_rating_from_session s messages =
     (if \<not> asks_for_rating messages then Inr None
      else case first_rating_reply messages of
             None \<Rightarrow> Inr None
           | Some m \<Rightarrow> Inr (Some (PyInt (reply_rating (reply_text m)))))"
  by (simp only: extract_session_rating_find extract_rating_from_session_find simp_thms)

theorem C2_rating_extractor_witness:
  "extract_session_rating bare_session sample_rated_messages = Inr (Some (PyFloat 4)) \<and>
   extract_rating_from_session bare_session sample_rated_messages = Inr (Some (PyInt 4)) \<and>
   extract_session_rating bare_session [user_msg ''3'', assistant_msg ''How are you?''] = Inr None \<and>
   extract_session_rating bare_session
     [assistant_msg ''Rate this session 1-5'', user_msg ''no thanks''] = Inr None \<and>
   extract_session_rating bare_session
     [assistant_msg ''Rate this session 1-5'',
      user_msg [CHR ''5'', CHR 0xE8, CHR ''m'', CHR ''e'']] = Inr None \<and>
   extract_session_rating bare_session
     [assistant_msg ''Rate this session 1-5'',
      user_msg [CHR ''f'', CHR ''i'', CHR ''v'', CHR ''e'', CHR 0xA0]]
     = Inr (Some (PyFloat 5))"
proof -
  let ?q = "assistant_msg ''Rate this session 1-5''"
  let ?eme = "user_msg [CHR ''5'', CHR 0xE8, CHR ''m'', CHR ''e'']"
  let ?five = "user_msg [CHR ''f'', CHR ''i'', CHR ''v'', CHR ''e'', CHR 0xA0]"
  have a: "asks_for_rating sample_rated_messages" by code_simp
  have f: "first_rating_reply sample_rated_messages = Some (user_msg ''I would say 4, thanks'')"
    by code_simp
  have r: "reply_rating (reply_text (user_msg ''I would say 4, thanks'')) = 4" by code_simp
  have c1: "extract_session_rating bare_session sample_rated_messages = Inr (Some (PyFloat 4)) \<and>
            extract_rating_from_session bare_session sample_rated_messages = Inr (Some (PyInt 4))"
    using C2_rating_extractor [of bare_session sample_rated_messages]
    by (simp add: a f r)
  have n: "\<not> asks_for_rating [user_msg ''3'', assistant_msg ''How are you?'']" by code_simp
  have c2: "extract_session_rating bare_session [user_msg ''3'', assistant_msg ''How are you?'']
              = Inr None"
    using C2_rating_extractor [of bare_session "[user_msg ''3'', assistant_msg ''How are you?'']"]
    by (simp add: n)
  have a2: "asks_for_rating [?q, user_msg ''no thanks'']" by code_simp
  have f2: "first_rating_reply [?q, user_msg ''no thanks''] = None" by code_simp
  have c3: "extract_session_rating bare_session [?q, user_msg ''no thanks''] = Inr None"
    using C2_rating_extractor [of bare_session "[?q, user_msg ''no thanks'']"]
    by (simp add: a2 f2)
  have a3: "asks_for_rating [?q, ?eme]" by code_simp
  have f3: "first_rating_reply [?q, ?eme] = None" by code_simp
  have c4: "extract_session_rating bare_session [?q, ?eme] = Inr None"
    using C2_rating_extractor [of bare_session "[?q, ?eme]"]
    by (simp add: a3 f3)
  have a4: "asks_for_rating [?q, ?five]" by code_simp
  have f4: "first_rating_reply [?q, ?five] = Some ?five" by code_simp
  have r4: "reply_rating (reply_text ?five) = 5" by code_simp
  have c5: "extract_session_rating bare_session [?q, ?five] = Inr (Some (PyFloat 5))"
    using C2_rating_extractor [of bare_session "[?q, ?five]"]
    by (simp add: a4 f4 r4)
  from c1 c2 c3 c4 c5 show ?thesis by (intro conjI) (elim conjE, assumption)+
qed

text \<open>
  Claim C8: \<^verbatim>\<open>extract_session_rating\<close> never raises, and what it returns is \<^verbatim>\<open>None\<close> or
  one of the floats 1.0, 2.0, 3.0, 4.0, 5.0.
\<close>

theorem C8_rating_in_scale:
  "extract_session_rating s messages \<in>
     {Inr None, Inr (Some (PyFloat 1)), Inr (Some (PyFloat 2)), Inr (Some (PyFloat 3)),
      Inr (Some (PyFloat 4)), Inr (Some (PyFloat 5))}"
proof (cases "asks_for_rating messages")
  case False
  then show ?thesis by (simp add: extract_session_rating_find)
next
  case True
  show ?thesis
  proof (cases "first_rating_reply messages")
    case None
    with True show ?thesis by (simp add: extract_session_rating_find)
  next
    case (Some m)
    then have "qualifying_reply (reply_text m)" by (simp add: first_rating_reply_qualifies)
    then have "1 \<le> reply_rating (reply_text m) \<and> reply_rating (reply_text m) \<le> 5"
      by (rule reply_rating_range)
    then have "reply_rating (reply_text m) \<in> {1, 2, 3, 4, 5}" by auto
    then have "PyFloat (of_int (reply_rating (reply_text m)))
                 \<in> {PyFloat 1, PyFloat 2, PyFloat 3, PyFloat 4, PyFloat 5}"
      by auto
    with True Some show ?thesis by (auto simp: extract_session_rating_find)
  qed
qed

theorem C8_rating_in_scale_witness:
  "extract_session_rating bare_session sample_rated_messages = Inr (Some (PyFloat 4))"
proof -
  have "extract_session_rating bare_session sample_rated_messages \<noteq> Inr None \<and>
        extract_session_rating bare_session sample_rated_messages \<noteq> Inr (Some (PyFloat 1)) \<and>
        extract_session_rating bare_session sample_rated_messages \<noteq> Inr (Some (PyFloat 2)) \<and>
        extract_session_rating bare_session sample_rated_messages \<noteq> Inr (Some (PyFloat 3)) \<and>
        extract_session_rating bare_session sample_rated_messages \<noteq> Inr (Some (PyFloat 5))"
    by code_simp
  with C8_rating_in_scale [of bare_session sample_rated_messages] show ?thesis by blast
qed

end
